theory Spec2Isabelle
  imports Main
begin

section \<open>Basic types\<close>

text \<open>
  An \<open>ObjectId\<close> is an opaque database key; only equality (\<open>equals\<close>) and generation of
  an unused one matter here. A \<open>Date\<close> is the instant it holds, in milliseconds since the
  epoch, so that \<open>\<le>\<close> and \<open><\<close> on dates are the comparisons of the source. A JavaScript
  string is a \<open>string\<close>: one \<open>char\<close> stands for one code unit, and \<open>length\<close> is the
  source's \<open>.length\<close>. An operation runs at one instant, its parameter \<open>now\<close>: every
  \<open>new Date()\<close> it evaluates returns that instant.
\<close>

type_synonym ObjectId = nat
type_synonym Date = int

text \<open>
  A property of an object or of a stored document that need not hold a value: it is
  \<open>undefined\<close> (absent), \<open>null\<close>, or present. A parameter \<open>x?: T\<close> is undefined or
  present (an \<open>option\<close>), and \<open>of_option\<close> makes the property of it. The database
  client is created without \<open>ignoreUndefined\<close>, so the driver writes a property that is
  \<open>undefined\<close> as \<open>null\<close>: \<open>stored\<close> is the property as the collection holds it.
\<close>

datatype 'a optional = Undefined | Null | Present 'a

definition of_option :: "'a option \<Rightarrow> 'a optional" where
  "of_option v = (case v of None \<Rightarrow> Undefined | Some x \<Rightarrow> Present x)"

definition stored :: "'a optional \<Rightarrow> 'a optional" where
  "stored v = (case v of Undefined \<Rightarrow> Null | Null \<Rightarrow> Null | Present x \<Rightarrow> Present x)"

text \<open>
  Thrown values. \<open>Error m\<close> is \<open>new Error(m)\<close>; the other constructors are the errors
  thrown by libraries: a failed zod \<open>parse\<close>, a malformed ObjectId string, a tool input
  refused by the tool's schema, a failed driver or network call.
\<close>

datatype error = Error string | ZodError | BSONError | ToolInputParsingException

text \<open>\<open>error.message\<close>. The text of a library error is the library's; only its kind is kept.\<close>

fun message :: "error \<Rightarrow> string" where
  "message (Error m) = m"
| "message ZodError = ''ZodError''"
| "message BSONError = ''BSONError''"
| "message ToolInputParsingException = ''Received tool input did not match expected schema''"

text \<open>The regular expression \<open>/^\+[1-9]\d{1,14}$/\<close> of both schemas (E.164 phone numbers).\<close>

definition is_digit :: "char \<Rightarrow> bool" where
  "is_digit c = (c \<in> set ''0123456789'')"

fun matches_E164 :: "string \<Rightarrow> bool" where
  "matches_E164 (p # d # rest) =
     (p = CHR ''+'' \<and> d \<in> set ''123456789'' \<and> 1 \<le> length rest \<and> length rest \<le> 14
      \<and> list_all is_digit rest)"
| "matches_E164 _ = False"

section \<open>Conversation (models/Conversation.ts)\<close>

datatype Role = User | Assistant | System

record Message =
  m_role :: Role
  m_content :: string
  m_timestamp :: Date

record Conversation =
  c_id :: "ObjectId option"
  c_userId :: ObjectId
  c_phoneNumber :: "string optional"
  c_title :: string
  c_messages :: "Message list"
  c_createdAt :: Date
  c_updatedAt :: Date
  c_lastMessageAt :: Date

text \<open>
  \<open>ConversationSchema.parse\<close>, as far as it can fail on a value of the record type: the
  phone number is \<open>undefined\<close> or a string in E.164 format (\<open>.optional()\<close> refuses
  \<open>null\<close>), and the title has 1 to 200 characters.
\<close>

definition ConversationSchema_ok :: "Conversation \<Rightarrow> bool" where
  "ConversationSchema_ok c =
     ((case c_phoneNumber c of Undefined \<Rightarrow> True | Null \<Rightarrow> False | Present p \<Rightarrow> matches_E164 p)
      \<and> 1 \<le> length (c_title c) \<and> length (c_title c) \<le> 200)"

text \<open>The constructor runs \<open>validate()\<close>, which throws when the schema refuses the data.\<close>

definition new_Conversation :: "Conversation \<Rightarrow> error + Conversation" where
  "new_Conversation d = (if ConversationSchema_ok d then Inr d else Inl ZodError)"

definition Conversation_fromDocument :: "Conversation \<Rightarrow> error + Conversation" where
  "Conversation_fromDocument doc = new_Conversation doc"

text \<open>\<open>firstMessage.split('\n')[0]\<close>: the text before the first line feed.\<close>

definition first_line :: "string \<Rightarrow> string" where
  "first_line s = takeWhile (\<lambda>ch. ch \<noteq> CHR 0x0A) s"

definition generateTitle :: "string \<Rightarrow> string" where
  "generateTitle firstMessage =
     (let title = take 50 (first_line firstMessage)
      in if length title < length firstMessage then title @ ''...'' else title)"

text \<open>\<open>addMessage\<close>; \<open>now\<close> is the instant \<open>new Date()\<close> returns.\<close>

definition addMessage :: "Role \<Rightarrow> string \<Rightarrow> Date \<Rightarrow> Conversation \<Rightarrow> Conversation" where
  "addMessage role content now c =
     (let msg = \<lparr>m_role = role, m_content = content, m_timestamp = now\<rparr>;
          c1 = c\<lparr>c_messages := c_messages c @ [msg],
                 c_lastMessageAt := m_timestamp msg,
                 c_updatedAt := m_timestamp msg\<rparr>
      in if length (c_messages c1) = 1 \<and> role = User
         then c1\<lparr>c_title := generateTitle content\<rparr>
         else c1)"

definition getFormattedHistory :: "Conversation \<Rightarrow> (Role \<times> string) list" where
  "getFormattedHistory c = map (\<lambda>msg. (m_role msg, m_content msg)) (c_messages c)"

definition Conversation_updateTimestamp :: "Date \<Rightarrow> Conversation \<Rightarrow> Conversation" where
  "Conversation_updateTimestamp now c = c\<lparr>c_updatedAt := now\<rparr>"

section \<open>Reminder (models/Reminder.ts)\<close>

datatype ReminderStatus = PENDING | SENT | CANCELLED

record Reminder =
  r_id :: "ObjectId option"
  r_userId :: ObjectId
  r_conversationId :: ObjectId
  r_phoneNumber :: string
  r_title :: string
  r_description :: "string optional"
  r_scheduledFor :: Date
  r_status :: ReminderStatus
  r_createdAt :: Date
  r_updatedAt :: Date

text \<open>
  \<open>ReminderSchema.parse\<close>, as far as it can fail on a value of the record type: phone
  number in E.164 format, title of 1 to 200 characters, description \<open>undefined\<close> or a
  string of at most 1000 characters (\<open>.optional()\<close> refuses \<open>null\<close>).
\<close>

definition ReminderSchema_ok :: "Reminder \<Rightarrow> bool" where
  "ReminderSchema_ok r =
     (matches_E164 (r_phoneNumber r)
      \<and> 1 \<le> length (r_title r) \<and> length (r_title r) \<le> 200
      \<and> (case r_description r of
            Undefined \<Rightarrow> True | Null \<Rightarrow> False | Present d \<Rightarrow> length d \<le> 1000))"

definition new_Reminder :: "Reminder \<Rightarrow> error + Reminder" where
  "new_Reminder d = (if ReminderSchema_ok d then Inr d else Inl ZodError)"

definition Reminder_fromDocument :: "Reminder \<Rightarrow> error + Reminder" where
  "Reminder_fromDocument doc = new_Reminder doc"

definition Reminder_updateTimestamp :: "Date \<Rightarrow> Reminder \<Rightarrow> Reminder" where
  "Reminder_updateTimestamp now r = r\<lparr>r_updatedAt := now\<rparr>"

definition isPending :: "Reminder \<Rightarrow> bool" where
  "isPending r = (r_status r = PENDING)"

definition isDue :: "Date \<Rightarrow> Reminder \<Rightarrow> bool" where
  "isDue currentTime r = (isPending r \<and> r_scheduledFor r \<le> currentTime)"

section \<open>The JavaScript runtime and the date validator (utils/DateValidator.ts)\<close>

text \<open>
  What the code takes from the runtime and the database driver, as parameters:
  \<open>parseDate s\<close> is the instant of \<open>new Date(s)\<close>, \<open>None\<close> for an invalid date;
  \<open>parseObjectId s\<close> is \<open>new ObjectId(s)\<close>, \<open>None\<close> when the constructor throws;
  the other three are the \<open>toISOString\<close>, \<open>toLocaleString\<close> and \<open>toString\<close> methods.
\<close>

record js_env =
  parseDate :: "string \<Rightarrow> Date option"
  toISOString :: "Date \<Rightarrow> string"
  toLocaleString :: "Date \<Rightarrow> string"
  parseObjectId :: "string \<Rightarrow> ObjectId option"
  ObjectId_toString :: "ObjectId \<Rightarrow> string"

text \<open>The inner \<open>Invalid date format\<close> error is caught and replaced by the outer one.\<close>

definition validateISODate :: "js_env \<Rightarrow> string \<Rightarrow> error + Date" where
  "validateISODate env dateString =
     (case parseDate env dateString of
        None \<Rightarrow> Inl (Error (''Invalid ISO date string: '' @ dateString))
      | Some date \<Rightarrow> Inr date)"

definition isFutureDate :: "Date \<Rightarrow> Date \<Rightarrow> bool" where
  "isFutureDate date currentTime = (date > currentTime)"

definition validateFutureISODate :: "js_env \<Rightarrow> string \<Rightarrow> Date \<Rightarrow> error + Date" where
  "validateFutureISODate env dateString currentTime =
     (case validateISODate env dateString of
        Inl e \<Rightarrow> Inl e
      | Inr date \<Rightarrow>
          if \<not> isFutureDate date currentTime
          then Inl (Error ''Reminder date must be in the future'')
          else Inr date)"

section \<open>JSON values and the zod schemas of the tools\<close>

datatype json =
  JNull | JBool bool | JNumber int | JString string | JArray "json list"
  | JObject "(string \<times> json) list"

text \<open>
  \<open>z.string()\<close> on a property that may be missing: \<open>None\<close> is a refusal. The optional
  variant accepts a missing property and nothing else that is not a string.
\<close>

fun z_string :: "json option \<Rightarrow> string option" where
  "z_string (Some (JString s)) = Some s"
| "z_string _ = None"

fun z_string_optional :: "json option \<Rightarrow> string option option" where
  "z_string_optional None = Some None"
| "z_string_optional (Some (JString s)) = Some (Some s)"
| "z_string_optional _ = None"

text \<open>
  \<open>DateValidator.futureISODateSchema\<close>: a string transformed by
  \<open>validateFutureISODate\<close> at the instant of the validation; an error there becomes a
  schema issue.
\<close>

definition futureISODateSchema :: "js_env \<Rightarrow> Date \<Rightarrow> json option \<Rightarrow> Date option" where
  "futureISODateSchema env now v =
     (case z_string v of
        None \<Rightarrow> None
      | Some val \<Rightarrow>
          (case validateFutureISODate env val now of Inl e \<Rightarrow> None | Inr date \<Rightarrow> Some date))"

definition futureISODateSchema_optional ::
    "js_env \<Rightarrow> Date \<Rightarrow> json option \<Rightarrow> Date option option" where
  "futureISODateSchema_optional env now v =
     (case v of
        None \<Rightarrow> Some None
      | Some x \<Rightarrow> (case futureISODateSchema env now v of None \<Rightarrow> None | Some d \<Rightarrow> Some (Some d)))"

record create_args =
  ca_title :: string
  ca_description :: "string option"
  ca_scheduledFor :: Date

definition create_schema :: "js_env \<Rightarrow> Date \<Rightarrow> (string \<times> json) list \<Rightarrow> create_args option" where
  "create_schema env now args =
     (case z_string (map_of args ''title'') of
        None \<Rightarrow> None
      | Some title \<Rightarrow>
          if \<not> (1 \<le> length title \<and> length title \<le> 200) then None
          else
            (case z_string_optional (map_of args ''description'') of
               None \<Rightarrow> None
             | Some description \<Rightarrow>
                 if \<not> (case description of None \<Rightarrow> True | Some d \<Rightarrow> length d \<le> 1000) then None
                 else
                   (case futureISODateSchema env now (map_of args ''scheduledFor'') of
                      None \<Rightarrow> None
                    | Some scheduledFor \<Rightarrow>
                        Some \<lparr>ca_title = title, ca_description = description,
                              ca_scheduledFor = scheduledFor\<rparr>)))"

text \<open>\<open>z.enum(['pending', 'sent', 'cancelled']).optional()\<close>.\<close>

fun status_enum_optional :: "json option \<Rightarrow> ReminderStatus option option" where
  "status_enum_optional None = Some None"
| "status_enum_optional (Some (JString s)) =
     (if s = ''pending'' then Some (Some PENDING)
      else if s = ''sent'' then Some (Some SENT)
      else if s = ''cancelled'' then Some (Some CANCELLED)
      else None)"
| "status_enum_optional _ = None"

definition list_schema :: "(string \<times> json) list \<Rightarrow> ReminderStatus option option" where
  "list_schema args = status_enum_optional (map_of args ''status'')"

record update_args =
  ua_reminderId :: string
  ua_title :: "string option"
  ua_description :: "string option"
  ua_scheduledFor :: "Date option"

definition update_schema :: "js_env \<Rightarrow> Date \<Rightarrow> (string \<times> json) list \<Rightarrow> update_args option" where
  "update_schema env now args =
     (case z_string (map_of args ''reminderId'') of
        None \<Rightarrow> None
      | Some reminderId \<Rightarrow>
          (case z_string_optional (map_of args ''title'') of
             None \<Rightarrow> None
           | Some title \<Rightarrow>
               if \<not> (case title of None \<Rightarrow> True | Some t \<Rightarrow> 1 \<le> length t \<and> length t \<le> 200)
               then None
               else
                 (case z_string_optional (map_of args ''description'') of
                    None \<Rightarrow> None
                  | Some description \<Rightarrow>
                      if \<not> (case description of None \<Rightarrow> True | Some d \<Rightarrow> length d \<le> 1000)
                      then None
                      else
                        (case futureISODateSchema_optional env now (map_of args ''scheduledFor'') of
                           None \<Rightarrow> None
                         | Some scheduledFor \<Rightarrow>
                             Some \<lparr>ua_reminderId = reminderId, ua_title = title,
                                   ua_description = description,
                                   ua_scheduledFor = scheduledFor\<rparr>))))"

definition delete_schema :: "(string \<times> json) list \<Rightarrow> string option" where
  "delete_schema args = z_string (map_of args ''reminderId'')"

section \<open>The reminders collection and its repository\<close>

text \<open>
  The collection is the list of its documents in insertion order. The driver gives a
  document inserted without \<open>_id\<close> an identifier no document of the collection has, and
  refuses a document whose \<open>_id\<close> is taken. \<open>toDocument()\<close> lists every property, so a
  description that is \<open>undefined\<close> is written as \<open>null\<close>.
\<close>

definition fresh_ObjectId :: "ObjectId option list \<Rightarrow> ObjectId" where
  "fresh_ObjectId ids = Suc (foldr max (map (case_option 0 id) ids) 0)"

definition Reminder_insertOne :: "Reminder \<Rightarrow> Reminder list \<Rightarrow> error + (ObjectId \<times> Reminder list)" where
  "Reminder_insertOne doc coll =
     (case r_id doc of
        None \<Rightarrow>
          (let i = fresh_ObjectId (map r_id coll)
           in Inr (i, coll @ [doc\<lparr>r_id := Some i, r_description := stored (r_description doc)\<rparr>]))
      | Some i \<Rightarrow>
          if Some i \<in> set (map r_id coll) then Inl (Error ''E11000 duplicate key error'')
          else Inr (i, coll @ [doc\<lparr>r_description := stored (r_description doc)\<rparr>]))"

text \<open>\<open>findOne({_id: id})\<close>: the first document with that identifier.\<close>

definition Reminder_findOne_id :: "ObjectId \<Rightarrow> Reminder list \<Rightarrow> Reminder option" where
  "Reminder_findOne_id i coll = find (\<lambda>d. r_id d = Some i) coll"

fun update_first :: "('a \<Rightarrow> bool) \<Rightarrow> ('a \<Rightarrow> 'a) \<Rightarrow> 'a list \<Rightarrow> 'a list" where
  "update_first P f [] = []"
| "update_first P f (x # xs) = (if P x then f x # xs else x # update_first P f xs)"

text \<open>
  \<open>Partial<Reminder>\<close>, with the keys the callers of \<open>update\<close> set: a key that is \<open>None\<close>
  is absent from the \<open>$set\<close>.
\<close>

record Reminder_patch =
  p_title :: "string option"
  p_description :: "string option"
  p_scheduledFor :: "Date option"
  p_status :: "ReminderStatus option"

definition apply_set :: "Reminder_patch \<Rightarrow> Date \<Rightarrow> Reminder \<Rightarrow> Reminder" where
  "apply_set data now doc =
     doc\<lparr>r_title := (case p_title data of None \<Rightarrow> r_title doc | Some t \<Rightarrow> t),
         r_description :=
           (case p_description data of None \<Rightarrow> r_description doc | Some d \<Rightarrow> Present d),
         r_scheduledFor := (case p_scheduledFor data of None \<Rightarrow> r_scheduledFor doc | Some t \<Rightarrow> t),
         r_status := (case p_status data of None \<Rightarrow> r_status doc | Some st \<Rightarrow> st),
         r_updatedAt := now\<rparr>"

definition RR_findById :: "ObjectId \<Rightarrow> Reminder list \<Rightarrow> error + Reminder option" where
  "RR_findById i coll =
     (case Reminder_findOne_id i coll of
        None \<Rightarrow> Inr None
      | Some doc \<Rightarrow>
          (case Reminder_fromDocument doc of Inl e \<Rightarrow> Inl e | Inr r \<Rightarrow> Inr (Some r)))"

text \<open>\<open>docs.map(doc => Reminder.fromDocument(doc))\<close>: the first refusal is thrown.\<close>

fun Reminders_fromDocuments :: "Reminder list \<Rightarrow> error + Reminder list" where
  "Reminders_fromDocuments [] = Inr []"
| "Reminders_fromDocuments (doc # docs) =
     (case Reminder_fromDocument doc of
        Inl e \<Rightarrow> Inl e
      | Inr r \<Rightarrow>
          (case Reminders_fromDocuments docs of Inl e \<Rightarrow> Inl e | Inr rs \<Rightarrow> Inr (r # rs)))"

text \<open>\<open>findMany\<close> sorts by \<open>scheduledFor\<close>, ascending.\<close>

definition RR_findByUserId :: "ObjectId \<Rightarrow> Reminder list \<Rightarrow> error + Reminder list" where
  "RR_findByUserId userId coll =
     Reminders_fromDocuments (sort_key r_scheduledFor (filter (\<lambda>d. r_userId d = userId) coll))"

definition RR_create :: "Reminder \<Rightarrow> Date \<Rightarrow> Reminder list \<Rightarrow> error + (Reminder \<times> Reminder list)" where
  "RR_create reminder now coll =
     (let r1 = Reminder_updateTimestamp now reminder
      in case Reminder_insertOne r1 coll of
           Inl e \<Rightarrow> Inl e
         | Inr (insertedId, coll') \<Rightarrow> Inr (r1\<lparr>r_id := Some insertedId\<rparr>, coll'))"

text \<open>
  \<open>update\<close>: \<open>findOneAndUpdate\<close> with \<open>$set: {...data, updatedAt: new Date()}\<close>, returning
  the document after the update. The write has taken place when \<open>fromDocument\<close> throws.
\<close>

definition RR_update ::
    "ObjectId \<Rightarrow> Reminder_patch \<Rightarrow> Date \<Rightarrow> Reminder list \<Rightarrow> (error + Reminder option) \<times> Reminder list" where
  "RR_update i data now coll =
     (case Reminder_findOne_id i coll of
        None \<Rightarrow> (Inr None, coll)
      | Some doc \<Rightarrow>
          (let result = apply_set data now doc;
               coll' = update_first (\<lambda>d. r_id d = Some i) (\<lambda>d. result) coll
           in (case Reminder_fromDocument result of Inl e \<Rightarrow> Inl e | Inr r \<Rightarrow> Inr (Some r), coll')))"

definition findDueReminders :: "Date \<Rightarrow> Reminder list \<Rightarrow> error + Reminder list" where
  "findDueReminders currentTime coll =
     Reminders_fromDocuments
       (filter (\<lambda>d. r_status d = PENDING \<and> r_scheduledFor d \<le> currentTime) coll)"

definition updateStatus ::
    "ObjectId \<Rightarrow> ReminderStatus \<Rightarrow> Date \<Rightarrow> Reminder list \<Rightarrow> (error + Reminder option) \<times> Reminder list" where
  "updateStatus i status now coll =
     RR_update i \<lparr>p_title = None, p_description = None, p_scheduledFor = None,
                  p_status = Some status\<rparr> now coll"

definition markAsSent ::
    "ObjectId \<Rightarrow> Date \<Rightarrow> Reminder list \<Rightarrow> (error + Reminder option) \<times> Reminder list" where
  "markAsSent i now coll = updateStatus i SENT now coll"

definition cancelReminder ::
    "ObjectId \<Rightarrow> Date \<Rightarrow> Reminder list \<Rightarrow> (error + Reminder option) \<times> Reminder list" where
  "cancelReminder i now coll = updateStatus i CANCELLED now coll"

section \<open>The reminder tools (agent/tools/ReminderTools.ts)\<close>

text \<open>
  A tool returns \<open>JSON.stringify\<close> of an object; the model keeps the object. A property
  whose value is \<open>undefined\<close> is left out by \<open>JSON.stringify\<close>.
\<close>

definition failure :: "string \<Rightarrow> json" where
  "failure msg = JObject [(''success'', JBool False), (''error'', JString msg)]"

definition optional_property :: "string \<Rightarrow> string option \<Rightarrow> (string \<times> json) list" where
  "optional_property k v = (case v of None \<Rightarrow> [] | Some s \<Rightarrow> [(k, JString s)])"

definition description_property :: "string optional \<Rightarrow> (string \<times> json) list" where
  "description_property v =
     (case v of
        Undefined \<Rightarrow> []
      | Null \<Rightarrow> [(''description'', JNull)]
      | Present s \<Rightarrow> [(''description'', JString s)])"

text \<open>The decimal digits of a number, as a template literal prints it.\<close>

fun show_nat :: "nat \<Rightarrow> string" where
  "show_nat n = (if n < 10 then [''0123456789'' ! n]
                 else show_nat (n div 10) @ [''0123456789'' ! (n mod 10)])"

definition status_text :: "ReminderStatus \<Rightarrow> string" where
  "status_text st = (case st of PENDING \<Rightarrow> ''pending'' | SENT \<Rightarrow> ''sent'' | CANCELLED \<Rightarrow> ''cancelled'')"

text \<open>
  The bodies (\<open>func\<close>) of the four tools. Each runs inside \<open>try\<close>/\<open>catch\<close>: whatever is
  thrown in it becomes a failure object with the error's message. \<open>userId\<close>,
  \<open>conversationId\<close> and \<open>phoneNumber\<close> are the values the tool closes over, \<open>now\<close> is the
  instant of the call.
\<close>

definition create_reminder_func ::
    "js_env \<Rightarrow> ObjectId \<Rightarrow> ObjectId \<Rightarrow> string \<Rightarrow> Date \<Rightarrow> create_args \<Rightarrow> Reminder list
      \<Rightarrow> json \<times> Reminder list" where
  "create_reminder_func env userId conversationId phoneNumber now a coll =
     (case new_Reminder
             \<lparr>r_id = None, r_userId = userId, r_conversationId = conversationId,
              r_phoneNumber = phoneNumber, r_title = ca_title a,
              r_description = of_option (ca_description a),
              r_scheduledFor = ca_scheduledFor a,
              r_status = PENDING, r_createdAt = now, r_updatedAt = now\<rparr> of
        Inl e \<Rightarrow> (failure (message e), coll)
      | Inr reminder \<Rightarrow>
          (case RR_create reminder now coll of
             Inl e \<Rightarrow> (failure (message e), coll)
           | Inr (created, coll') \<Rightarrow>
               (JObject
                  ([(''success'', JBool True),
                    (''message'', JString
                       (''Reminder created successfully! I'' @ [CHR 0x27]
                        @ ''ll send you a reminder '' @ [CHR 0x22] @ ca_title a @ [CHR 0x22]
                        @ '' on '' @ toLocaleString env (ca_scheduledFor a) @ ''.''))]
                   @ optional_property ''reminderId''
                       (map_option (ObjectId_toString env) (r_id created))
                   @ [(''scheduledFor'', JString (toISOString env (ca_scheduledFor a)))]),
                coll')))"

definition reminder_summary :: "js_env \<Rightarrow> Reminder \<Rightarrow> json" where
  "reminder_summary env r =
     JObject
       (optional_property ''id'' (map_option (ObjectId_toString env) (r_id r))
        @ [(''title'', JString (r_title r))]
        @ description_property (r_description r)
        @ [(''scheduledFor'', JString (toISOString env (r_scheduledFor r))),
           (''status'', JString (status_text (r_status r))),
           (''createdAt'', JString (toISOString env (r_createdAt r)))])"

definition list_reminders_func ::
    "js_env \<Rightarrow> ObjectId \<Rightarrow> ReminderStatus option \<Rightarrow> Reminder list \<Rightarrow> json \<times> Reminder list" where
  "list_reminders_func env userId status coll =
     (case RR_findByUserId userId coll of
        Inl e \<Rightarrow> (failure (message e), coll)
      | Inr found \<Rightarrow>
          (let reminders =
                 (case status of None \<Rightarrow> found | Some st \<Rightarrow> filter (\<lambda>r. r_status r = st) found)
           in if length reminders = 0
              then (JObject
                      [(''success'', JBool True),
                       (''message'', JString
                          (case status of
                             Some st \<Rightarrow> ''You don'' @ [CHR 0x27] @ ''t have any '' @ status_text st
                                        @ '' reminders.''
                           | None \<Rightarrow> ''You don'' @ [CHR 0x27] @ ''t have any reminders yet.'')),
                       (''reminders'', JArray [])],
                    coll)
              else (JObject
                      [(''success'', JBool True),
                       (''message'', JString
                          (''Found '' @ show_nat (length reminders) @ '' reminder(s).'')),
                       (''reminders'', JArray (map (reminder_summary env) reminders))],
                    coll)))"

definition update_reminder_func ::
    "js_env \<Rightarrow> ObjectId \<Rightarrow> Date \<Rightarrow> update_args \<Rightarrow> Reminder list \<Rightarrow> json \<times> Reminder list" where
  "update_reminder_func env userId now a coll =
     (case parseObjectId env (ua_reminderId a) of
        None \<Rightarrow> (failure (message BSONError), coll)
      | Some reminderObjectId \<Rightarrow>
          (case RR_findById reminderObjectId coll of
             Inl e \<Rightarrow> (failure (message e), coll)
           | Inr None \<Rightarrow> (failure ''Reminder not found.'', coll)
           | Inr (Some existing) \<Rightarrow>
               if r_userId existing \<noteq> userId
               then (failure ''You do not have permission to update this reminder.'', coll)
               else
                 (let updateData =
                        \<lparr>p_title = (case ua_title a of
                                      None \<Rightarrow> None
                                    | Some t \<Rightarrow> if t \<noteq> [] then Some t else None),
                         p_description = ua_description a,
                         p_scheduledFor = ua_scheduledFor a,
                         p_status = None\<rparr>
                  in case RR_update reminderObjectId updateData now coll of
                       (Inl e, coll') \<Rightarrow> (failure (message e), coll')
                     | (Inr None, coll') \<Rightarrow> (failure ''Failed to update reminder.'', coll')
                     | (Inr (Some updated), coll') \<Rightarrow>
                         (JObject
                            [(''success'', JBool True),
                             (''message'', JString ''Reminder updated successfully!''),
                             (''reminder'', JObject
                                (optional_property ''id''
                                   (map_option (ObjectId_toString env) (r_id updated))
                                 @ [(''title'', JString (r_title updated))]
                                 @ description_property (r_description updated)
                                 @ [(''scheduledFor'', JString
                                       (toISOString env (r_scheduledFor updated))),
                                    (''status'', JString (status_text (r_status updated)))]))],
                          coll'))))"

definition delete_reminder_func ::
    "js_env \<Rightarrow> ObjectId \<Rightarrow> Date \<Rightarrow> string \<Rightarrow> Reminder list \<Rightarrow> json \<times> Reminder list" where
  "delete_reminder_func env userId now reminderId coll =
     (case parseObjectId env reminderId of
        None \<Rightarrow> (failure (message BSONError), coll)
      | Some reminderObjectId \<Rightarrow>
          (case RR_findById reminderObjectId coll of
             Inl e \<Rightarrow> (failure (message e), coll)
           | Inr None \<Rightarrow> (failure ''Reminder not found.'', coll)
           | Inr (Some existing) \<Rightarrow>
               if r_userId existing \<noteq> userId
               then (failure ''You do not have permission to delete this reminder.'', coll)
               else
                 (case cancelReminder reminderObjectId now coll of
                    (Inl e, coll') \<Rightarrow> (failure (message e), coll')
                  | (Inr cancelled, coll') \<Rightarrow>
                      (JObject
                         [(''success'', JBool True),
                          (''message'', JString
                             (''Reminder '' @ [CHR 0x22] @ r_title existing @ [CHR 0x22]
                              @ '' has been cancelled.''))],
                       coll'))))"

text \<open>
  A tool invoked with the arguments of a tool call: the arguments go through the tool's
  schema first, and a refusal is thrown to the caller as a
  \<open>ToolInputParsingException\<close>; the body runs on the parsed arguments only.
\<close>

definition create_reminder_tool ::
    "js_env \<Rightarrow> ObjectId \<Rightarrow> ObjectId \<Rightarrow> string \<Rightarrow> Date \<Rightarrow> (string \<times> json) list \<Rightarrow> Reminder list
      \<Rightarrow> (error + json) \<times> Reminder list" where
  "create_reminder_tool env userId conversationId phoneNumber now args coll =
     (case create_schema env now args of
        None \<Rightarrow> (Inl ToolInputParsingException, coll)
      | Some a \<Rightarrow>
          (case create_reminder_func env userId conversationId phoneNumber now a coll of
             (out, coll') \<Rightarrow> (Inr out, coll')))"

definition list_reminders_tool ::
    "js_env \<Rightarrow> ObjectId \<Rightarrow> (string \<times> json) list \<Rightarrow> Reminder list \<Rightarrow> (error + json) \<times> Reminder list" where
  "list_reminders_tool env userId args coll =
     (case list_schema args of
        None \<Rightarrow> (Inl ToolInputParsingException, coll)
      | Some status \<Rightarrow>
          (case list_reminders_func env userId status coll of (out, coll') \<Rightarrow> (Inr out, coll')))"

definition update_reminder_tool ::
    "js_env \<Rightarrow> ObjectId \<Rightarrow> Date \<Rightarrow> (string \<times> json) list \<Rightarrow> Reminder list
      \<Rightarrow> (error + json) \<times> Reminder list" where
  "update_reminder_tool env userId now args coll =
     (case update_schema env now args of
        None \<Rightarrow> (Inl ToolInputParsingException, coll)
      | Some a \<Rightarrow>
          (case update_reminder_func env userId now a coll of (out, coll') \<Rightarrow> (Inr out, coll')))"

definition delete_reminder_tool ::
    "js_env \<Rightarrow> ObjectId \<Rightarrow> Date \<Rightarrow> (string \<times> json) list \<Rightarrow> Reminder list
      \<Rightarrow> (error + json) \<times> Reminder list" where
  "delete_reminder_tool env userId now args coll =
     (case delete_schema args of
        None \<Rightarrow> (Inl ToolInputParsingException, coll)
      | Some reminderId \<Rightarrow>
          (case delete_reminder_func env userId now reminderId coll of
             (out, coll') \<Rightarrow> (Inr out, coll')))"

text \<open>
  \<open>getAllTools(...).find(t => t.name === name)\<close> followed by \<open>invoke\<close>: \<open>None\<close> when no
  tool has the name.
\<close>

definition invoke_tool ::
    "js_env \<Rightarrow> ObjectId \<Rightarrow> ObjectId \<Rightarrow> string \<Rightarrow> Date \<Rightarrow> string \<Rightarrow> (string \<times> json) list
      \<Rightarrow> Reminder list \<Rightarrow> ((error + json) \<times> Reminder list) option" where
  "invoke_tool env userId conversationId phoneNumber now name args coll =
     (if name = ''create_reminder''
      then Some (create_reminder_tool env userId conversationId phoneNumber now args coll)
      else if name = ''list_reminders'' then Some (list_reminders_tool env userId args coll)
      else if name = ''update_reminder'' then Some (update_reminder_tool env userId now args coll)
      else if name = ''delete_reminder'' then Some (delete_reminder_tool env userId now args coll)
      else None)"

section \<open>The reminder scheduler (services/ReminderScheduler.ts)\<close>

text \<open>
  The notification channel. \<open>sendSMS outbox to body\<close> tells whether the send of \<open>body\<close>
  to \<open>to\<close> succeeds (\<open>False\<close>: \<open>TwilioService.sendSMS\<close> throws), given the sends
  attempted before it; every attempt is recorded in the outbox.
\<close>

type_synonym sms = "string \<times> string"
type_synonym channel = "sms list \<Rightarrow> string \<Rightarrow> string \<Rightarrow> bool"

text \<open>The bell emoji that starts a reminder's text, as the bytes of its UTF-8 encoding.\<close>

definition bell :: string where
  "bell = [CHR 0xF0, CHR 0x9F, CHR 0x94, CHR 0x94]"

definition formatReminderMessage :: "js_env \<Rightarrow> Reminder \<Rightarrow> string" where
  "formatReminderMessage env reminder =
     (let message1 = bell @ '' Reminder: '' @ r_title reminder;
          message2 = (case r_description reminder of
                        Present d \<Rightarrow>
                          if d \<noteq> [] then message1 @ [CHR 0x0A, CHR 0x0A] @ d else message1
                      | _ \<Rightarrow> message1)
      in message2 @ [CHR 0x0A, CHR 0x0A] @ ''Scheduled for: ''
         @ toLocaleString env (r_scheduledFor reminder))"

text \<open>
  \<open>sendReminder\<close>: the first component is the error it throws, if any (for a failed
  send, the channel's own error, of which nothing is read). A failed send throws before
  the reminder is marked; \<open>markAsSent\<close> runs only after a send that
  succeeded, and only for a reminder that has an \<open>_id\<close>.
\<close>

definition sendReminder ::
    "channel \<Rightarrow> js_env \<Rightarrow> Date \<Rightarrow> Reminder \<Rightarrow> Reminder list \<times> sms list
      \<Rightarrow> error option \<times> Reminder list \<times> sms list" where
  "sendReminder sendSMS env now reminder st =
     (case st of (coll, outbox) \<Rightarrow>
        (let body = formatReminderMessage env reminder;
             outbox' = outbox @ [(r_phoneNumber reminder, body)]
         in if \<not> sendSMS outbox (r_phoneNumber reminder) body
            then (Some (Error ''Failed to send SMS''), coll, outbox')
            else
              (case r_id reminder of
                 None \<Rightarrow> (None, coll, outbox')
               | Some i \<Rightarrow>
                   (case markAsSent i now coll of
                      (Inl e, coll') \<Rightarrow> (Some e, coll', outbox')
                    | (Inr marked, coll') \<Rightarrow> (None, coll', outbox')))))"

text \<open>
  The loop over the due reminders: an error thrown by \<open>sendReminder\<close> is caught and
  logged, and the loop goes on with the next reminder.
\<close>

fun send_due ::
    "channel \<Rightarrow> js_env \<Rightarrow> Date \<Rightarrow> Reminder list \<Rightarrow> Reminder list \<times> sms list
      \<Rightarrow> Reminder list \<times> sms list" where
  "send_due sendSMS env now [] st = st"
| "send_due sendSMS env now (reminder # rest) st =
     send_due sendSMS env now rest (snd (sendReminder sendSMS env now reminder st))"

text \<open>
  \<open>checkAndSendReminders\<close>, one tick at the instant \<open>now\<close>. An error of the query is
  caught and logged by the outer \<open>try\<close>.
\<close>

definition checkAndSendReminders ::
    "channel \<Rightarrow> js_env \<Rightarrow> Date \<Rightarrow> Reminder list \<times> sms list \<Rightarrow> Reminder list \<times> sms list" where
  "checkAndSendReminders sendSMS env now st =
     (case findDueReminders now (fst st) of
        Inl e \<Rightarrow> st
      | Inr dueReminders \<Rightarrow>
          if length dueReminders = 0 then st
          else send_due sendSMS env now dueReminders st)"

text \<open>
  For stating what a tick does: the text message of a reminder, and, of the due
  reminders of a tick, those whose send succeeds. The channel decides each send knowing
  the sends attempted before it, so the outbox grows along the list.
\<close>

definition sms_of :: "js_env \<Rightarrow> Reminder \<Rightarrow> sms" where
  "sms_of env r = (r_phoneNumber r, formatReminderMessage env r)"

fun delivered :: "channel \<Rightarrow> js_env \<Rightarrow> sms list \<Rightarrow> Reminder list \<Rightarrow> Reminder list" where
  "delivered sendSMS env outbox [] = []"
| "delivered sendSMS env outbox (r # rest) =
     (if sendSMS outbox (r_phoneNumber r) (formatReminderMessage env r) then [r] else [])
     @ delivered sendSMS env (outbox @ [sms_of env r]) rest"

section \<open>Sequences of operations on the reminders\<close>

text \<open>
  What can change a reminder: a tool invoked by the agent loop for some user,
  conversation and phone number, and the scheduler. A tick awaits its query, every send
  and every \<open>markAsSent\<close>, so other operations can run in between. \<open>Scheduler_tick\<close>
  is a tick that nothing interrupts. \<open>Scheduler_sendReminder\<close> is one iteration of a
  tick's loop on its own: \<open>sendReminder\<close> for a reminder that the tick's query returned
  earlier, run on the collection as it is by then. Each operation of a sequence comes with
  the instant at which it runs.
\<close>

datatype operation =
  Tool_call ObjectId ObjectId string string "(string \<times> json) list"
  | Scheduler_tick channel
  | Scheduler_sendReminder channel Reminder

definition apply_operation :: "js_env \<Rightarrow> Date \<Rightarrow> operation \<Rightarrow> Reminder list \<Rightarrow> Reminder list" where
  "apply_operation env now op coll =
     (case op of
        Tool_call userId conversationId phoneNumber name args \<Rightarrow>
          (case invoke_tool env userId conversationId phoneNumber now name args coll of
             None \<Rightarrow> coll
           | Some (out, coll') \<Rightarrow> coll')
      | Scheduler_tick sendSMS \<Rightarrow> fst (checkAndSendReminders sendSMS env now (coll, []))
      | Scheduler_sendReminder sendSMS reminder \<Rightarrow>
          fst (snd (sendReminder sendSMS env now reminder (coll, []))))"

fun run_operations :: "js_env \<Rightarrow> (Date \<times> operation) list \<Rightarrow> Reminder list \<Rightarrow> Reminder list" where
  "run_operations env [] coll = coll"
| "run_operations env ((now, op) # rest) coll =
     run_operations env rest (apply_operation env now op coll)"

text \<open>
  The status changes the operations can make to a stored reminder: any change of a
  pending reminder, and between sent and cancelled in both directions; never back to
  pending.
\<close>

definition status_step :: "ReminderStatus \<Rightarrow> ReminderStatus \<Rightarrow> bool" where
  "status_step a b = (a = PENDING \<or> b = SENT \<or> b = CANCELLED)"

text \<open>
  What one operation may do to a collection: it removes no reminder and changes each
  status only along \<open>status_step\<close>.
\<close>

definition step_ok :: "Reminder list \<Rightarrow> Reminder list \<Rightarrow> bool" where
  "step_ok coll coll' =
     (\<forall>i r. Reminder_findOne_id i coll = Some r \<longrightarrow>
        (\<exists>r'. Reminder_findOne_id i coll' = Some r' \<and> status_step (r_status r) (r_status r')))"

text \<open>
  A well-formed collection: every document has an \<open>_id\<close>, and no two have the same.
  A collection that starts empty and is changed by the operations above stays so.
\<close>

definition ids_ok :: "Reminder list \<Rightarrow> bool" where
  "ids_ok coll = (list_all (\<lambda>d. r_id d \<noteq> None) coll \<and> distinct (map r_id coll))"

section \<open>The conversations collection and its repository\<close>

text \<open>As for reminders: a phone number that is \<open>undefined\<close> is written as \<open>null\<close>.\<close>

definition Conversation_insertOne ::
    "Conversation \<Rightarrow> Conversation list \<Rightarrow> error + (ObjectId \<times> Conversation list)" where
  "Conversation_insertOne doc coll =
     (case c_id doc of
        None \<Rightarrow>
          (let i = fresh_ObjectId (map c_id coll)
           in Inr (i, coll @ [doc\<lparr>c_id := Some i, c_phoneNumber := stored (c_phoneNumber doc)\<rparr>]))
      | Some i \<Rightarrow>
          if Some i \<in> set (map c_id coll) then Inl (Error ''E11000 duplicate key error'')
          else Inr (i, coll @ [doc\<lparr>c_phoneNumber := stored (c_phoneNumber doc)\<rparr>]))"

definition CR_findOne :: "(Conversation \<Rightarrow> bool) \<Rightarrow> Conversation list \<Rightarrow> error + Conversation option" where
  "CR_findOne matches coll =
     (case find matches coll of
        None \<Rightarrow> Inr None
      | Some doc \<Rightarrow>
          (case Conversation_fromDocument doc of Inl e \<Rightarrow> Inl e | Inr c \<Rightarrow> Inr (Some c)))"

definition CR_findById :: "ObjectId \<Rightarrow> Conversation list \<Rightarrow> error + Conversation option" where
  "CR_findById i coll = CR_findOne (\<lambda>d. c_id d = Some i) coll"

definition CR_findByPhoneNumber :: "string \<Rightarrow> Conversation list \<Rightarrow> error + Conversation option" where
  "CR_findByPhoneNumber phoneNumber coll = CR_findOne (\<lambda>d. c_phoneNumber d = Present phoneNumber) coll"

definition CR_create ::
    "Conversation \<Rightarrow> Date \<Rightarrow> Conversation list \<Rightarrow> error + (Conversation \<times> Conversation list)" where
  "CR_create conversation now coll =
     (let c1 = Conversation_updateTimestamp now conversation
      in case Conversation_insertOne c1 coll of
           Inl e \<Rightarrow> Inl e
         | Inr (insertedId, coll') \<Rightarrow> Inr (c1\<lparr>c_id := Some insertedId\<rparr>, coll'))"

text \<open>
  \<open>appendMessage\<close> loads the conversation anew, adds the message to that copy and
  writes the copy's messages, title and timestamps back with \<open>updateOne\<close>. It returns
  \<open>null\<close> for an identifier that is not in the collection.
\<close>

definition appendMessage ::
    "ObjectId \<Rightarrow> Role \<Rightarrow> string \<Rightarrow> Date \<Rightarrow> Conversation list
      \<Rightarrow> error + (Conversation option \<times> Conversation list)" where
  "appendMessage i role content now coll =
     (case CR_findById i coll of
        Inl e \<Rightarrow> Inl e
      | Inr None \<Rightarrow> Inr (None, coll)
      | Inr (Some loaded) \<Rightarrow>
          (let conversation = addMessage role content now loaded
           in Inr (Some conversation,
                   update_first (\<lambda>d. c_id d = Some i)
                     (\<lambda>d. d\<lparr>c_messages := c_messages conversation,
                             c_title := c_title conversation,
                             c_lastMessageAt := c_lastMessageAt conversation,
                             c_updatedAt := c_updatedAt conversation\<rparr>)
                     coll)))"

text \<open>
  \<open>getOrCreateForUser\<close>. \<open>if (phoneNumber)\<close> holds for a phone number that is given and
  is not the empty string.
\<close>

definition getOrCreateForUser ::
    "ObjectId \<Rightarrow> string option \<Rightarrow> Date \<Rightarrow> Conversation list
      \<Rightarrow> error + (Conversation \<times> Conversation list)" where
  "getOrCreateForUser userId phoneNumber now coll =
     (case (case phoneNumber of
              None \<Rightarrow> Inr None
            | Some p \<Rightarrow> if p \<noteq> [] then CR_findByPhoneNumber p coll else Inr None) of
        Inl e \<Rightarrow> Inl e
      | Inr (Some existing) \<Rightarrow> Inr (existing, coll)
      | Inr None \<Rightarrow>
          (case new_Conversation
                  \<lparr>c_id = None, c_userId = userId, c_phoneNumber = of_option phoneNumber,
                   c_title = ''New Conversation'', c_messages = [], c_createdAt = now,
                   c_updatedAt = now, c_lastMessageAt = now\<rparr> of
             Inl e \<Rightarrow> Inl e
           | Inr conversation \<Rightarrow> CR_create conversation now coll))"

section \<open>The agent service (agent/AgentService.ts)\<close>

record ToolCall =
  tc_id :: string
  tc_name :: string
  tc_args :: "(string \<times> json) list"

text \<open>
  The content of a tool message: the string a tool returned (\<open>JSON.stringify\<close> of an
  object) or the text the loop makes of an error thrown by \<open>tool.invoke\<close>.
\<close>

datatype Output = Stringified json | Text string

datatype BaseMessage =
  SystemMessage string
  | HumanMessage string
  | AIMessage string "ToolCall list"
  | ToolMessage string Output

datatype AgentEvent =
  Conversation_id string
  | Token string
  | Tool_start string "(string \<times> json) list"
  | Tool_end string Output

text \<open>
  The completion client. Called on the message list of a round it throws (\<open>Inl\<close>) or
  answers. The single-shot interface answers with one message: its text and the tool
  calls it proposes. The streaming interface answers with a finite sequence of chunks;
  of a chunk the loop reads its text and whether it carries tool call fragments, and of the
  concatenation of all chunks (\<open>AIMessageChunk.concat\<close>, the library's) the tool calls.
\<close>

record AIResponse =
  ai_content :: string
  ai_tool_calls :: "ToolCall list"

record Chunk =
  ch_content :: string
  ch_has_tool_call_chunks :: bool

record StreamResponse =
  sr_chunks :: "Chunk list"
  sr_tool_calls :: "ToolCall list"

type_synonym llm_invoke = "BaseMessage list \<Rightarrow> error + AIResponse"
type_synonym llm_stream = "BaseMessage list \<Rightarrow> error + StreamResponse"

text \<open>
  The text of the system instruction before and after the instant it quotes. A character
  outside ASCII is written as the bytes of its UTF-8 encoding; nothing below depends on the
  length of this text.
\<close>

definition system_text_before :: string where
  "system_text_before =
     ''You are a helpful AI assistant that helps users manage their reminders''
     @ '' via SMS and web chat.''
     @ [CHR 0x0A, CHR 0x0A]
     @ ''Your capabilities:''
     @ [CHR 0x0A]
     @ ''- Create reminders with natural language date/time parsing''
     @ [CHR 0x0A]
     @ ''- List existing reminders''
     @ [CHR 0x0A]
     @ ''- Update reminder details''
     @ [CHR 0x0A]
     @ ''- Delete (cancel) reminders''
     @ [CHR 0x0A, CHR 0x0A]
     @ ''Important instructions:''
     @ [CHR 0x0A]
     @ ''1. When users mention dates/times in natural language (e.g., ''
     @ [CHR 0x22]
     @ ''tomorrow at 3pm''
     @ [CHR 0x22]
     @ '', ''
     @ [CHR 0x22]
     @ ''next Friday''
     @ [CHR 0x22]
     @ '', ''
     @ [CHR 0x22]
     @ ''in 2 hours''
     @ [CHR 0x22]
     @ ''), you MUST convert them to ISO 8601 format (YYYY-MM-DDTHH:mm:ss.sssZ)''
     @ '' before calling the create_reminder or update_reminder tools.''
     @ [CHR 0x0A]
     @ ''2. Always use the current date/time as context for parsing relative da''
     @ ''tes. Today is ''"

definition system_text_after :: string where
  "system_text_after =
     ''.''
     @ [CHR 0x0A]
     @ ''3. Be conversational and friendly in your responses.''
     @ [CHR 0x0A]
     @ ''4. Confirm reminder creation with the scheduled date/time in a human-r''
     @ ''eadable format.''
     @ [CHR 0x0A]
     @ ''5. If a user''
     @ [CHR 0x27]
     @ ''s request is ambiguous, ask clarifying questions.''
     @ [CHR 0x0A]
     @ ''6. Always ensure reminder dates are in the future.''
     @ [CHR 0x0A, CHR 0x0A]
     @ ''Examples of date parsing:''
     @ [CHR 0x0A]
     @ ''- ''
     @ [CHR 0x22]
     @ ''tomorrow at 3pm''
     @ [CHR 0x22]
     @ '' ''
     @ [CHR 0xE2, CHR 0x86, CHR 0x92]
     @ '' Calculate tomorrow''
     @ [CHR 0x27]
     @ ''s date at 15:00 in ISO format''
     @ [CHR 0x0A]
     @ ''- ''
     @ [CHR 0x22]
     @ ''next Friday at 10am''
     @ [CHR 0x22]
     @ '' ''
     @ [CHR 0xE2, CHR 0x86, CHR 0x92]
     @ '' Calculate next Friday''
     @ [CHR 0x27]
     @ ''s date at 10:00 in ISO format''
     @ [CHR 0x0A]
     @ ''- ''
     @ [CHR 0x22]
     @ ''in 2 hours''
     @ [CHR 0x22]
     @ '' ''
     @ [CHR 0xE2, CHR 0x86, CHR 0x92]
     @ '' Add 2 hours to current time in ISO format''
     @ [CHR 0x0A]
     @ ''- ''
     @ [CHR 0x22]
     @ ''December 25th at noon''
     @ [CHR 0x22]
     @ '' ''
     @ [CHR 0xE2, CHR 0x86, CHR 0x92]
     @ '' Convert to ISO format with year, month 12, day 25, time 12:00''
     @ [CHR 0x0A, CHR 0x0A]
     @ ''Remember: You have access to tools to manage reminders. Use them when ''
     @ ''appropriate!''"

definition getSystemMessage :: "js_env \<Rightarrow> Date \<Rightarrow> BaseMessage" where
  "getSystemMessage env now =
     SystemMessage (system_text_before @ toISOString env now @ system_text_after)"

text \<open>The message of the history as the prompt carries it.\<close>

definition history_message :: "Role \<times> string \<Rightarrow> BaseMessage" where
  "history_message msg =
     (if fst msg = User then HumanMessage (snd msg)
      else if fst msg = Assistant then AIMessage (snd msg) []
      else SystemMessage (snd msg))"

text \<open>
  The prompt of the first round, from the conversation object the run holds:
  \<open>history.slice(0, -1)\<close> is the history without its last entry.
\<close>

definition prepare_messages :: "js_env \<Rightarrow> Date \<Rightarrow> Conversation \<Rightarrow> string \<Rightarrow> BaseMessage list" where
  "prepare_messages env now conversation msg =
     (let history = getFormattedHistory conversation
      in [getSystemMessage env now] @ map history_message (butlast history) @ [HumanMessage msg])"

text \<open>
  The state of a run of the loop: the running message list, the reminders collection,
  \<open>finalResponse\<close>, the message list of every completion call made so far, the events
  emitted so far, and the error that ended the run, if one was thrown.
\<close>

record LoopState =
  ls_messages :: "BaseMessage list"
  ls_reminders :: "Reminder list"
  ls_finalResponse :: string
  ls_completions :: "BaseMessage list list"
  ls_events :: "AgentEvent list"
  ls_thrown :: "error option"

text \<open>
  One proposed tool call: nothing happens when no tool has its name; otherwise the tool
  is invoked, an error it throws becomes the text \<open>Error: ...\<close>, and the output is
  pushed as a tool message. \<open>emit\<close> tells the streaming loop, which also emits the two
  tool events.
\<close>

definition run_tool_call ::
    "bool \<Rightarrow> js_env \<Rightarrow> ObjectId \<Rightarrow> ObjectId \<Rightarrow> string \<Rightarrow> Date \<Rightarrow> ToolCall \<Rightarrow> LoopState \<Rightarrow> LoopState" where
  "run_tool_call emit env userId conversationId phoneNumber now toolCall st =
     (case invoke_tool env userId conversationId phoneNumber now (tc_name toolCall)
             (tc_args toolCall) (ls_reminders st) of
        None \<Rightarrow> st
      | Some (res, coll') \<Rightarrow>
          (let output = (case res of
                           Inl e \<Rightarrow> Text (''Error: '' @ message e)
                         | Inr j \<Rightarrow> Stringified j)
           in st\<lparr>ls_reminders := coll',
                  ls_events := ls_events st @
                    (if emit
                     then [Tool_start (tc_name toolCall) (tc_args toolCall),
                           Tool_end (tc_name toolCall) output]
                     else []),
                  ls_messages := ls_messages st @ [ToolMessage (tc_id toolCall) output]\<rparr>))"

fun run_tool_calls ::
    "bool \<Rightarrow> js_env \<Rightarrow> ObjectId \<Rightarrow> ObjectId \<Rightarrow> string \<Rightarrow> Date \<Rightarrow> ToolCall list \<Rightarrow> LoopState
      \<Rightarrow> LoopState" where
  "run_tool_calls emit env userId conversationId phoneNumber now [] st = st"
| "run_tool_calls emit env userId conversationId phoneNumber now (toolCall # rest) st =
     run_tool_calls emit env userId conversationId phoneNumber now rest
       (run_tool_call emit env userId conversationId phoneNumber now toolCall st)"

text \<open>
  The loop of \<open>processMessageStream\<close>; the numeral is the number of iterations left of
  \<open>maxIterations\<close>. Every chunk with text adds it to \<open>finalResponse\<close> and is emitted as
  a token unless it carries tool call fragments. A stream without chunks ends the loop;
  a gathered message with tool calls resets \<open>finalResponse\<close>, runs the calls and goes on;
  one without ends the loop.
\<close>

fun stream_loop ::
    "llm_stream \<Rightarrow> js_env \<Rightarrow> ObjectId \<Rightarrow> ObjectId \<Rightarrow> string \<Rightarrow> Date \<Rightarrow> nat \<Rightarrow> LoopState
      \<Rightarrow> LoopState" where
  "stream_loop llm env userId conversationId phoneNumber now 0 st = st"
| "stream_loop llm env userId conversationId phoneNumber now (Suc n) st =
     (case llm (ls_messages st) of
        Inl e \<Rightarrow>
          st\<lparr>ls_completions := ls_completions st @ [ls_messages st], ls_thrown := Some e\<rparr>
      | Inr resp \<Rightarrow>
          (let texts = filter (\<lambda>ch. ch_content ch \<noteq> []) (sr_chunks resp);
               st1 = st\<lparr>ls_completions := ls_completions st @ [ls_messages st],
                         ls_finalResponse :=
                           ls_finalResponse st @ concat (map ch_content texts),
                         ls_events := ls_events st @
                           map (\<lambda>ch. Token (ch_content ch))
                             (filter (\<lambda>ch. \<not> ch_has_tool_call_chunks ch) texts)\<rparr>
           in if sr_chunks resp = [] then st1
              else
                (let gathered =
                       AIMessage (concat (map ch_content (sr_chunks resp))) (sr_tool_calls resp);
                     st2 = st1\<lparr>ls_messages := ls_messages st1 @ [gathered]\<rparr>
                 in if sr_tool_calls resp \<noteq> []
                    then stream_loop llm env userId conversationId phoneNumber now n
                           (run_tool_calls True env userId conversationId phoneNumber now
                              (sr_tool_calls resp) (st2\<lparr>ls_finalResponse := []\<rparr>))
                    else st2)))"

text \<open>The loop of \<open>processMessage\<close>, on the single-shot interface.\<close>

fun invoke_loop ::
    "llm_invoke \<Rightarrow> js_env \<Rightarrow> ObjectId \<Rightarrow> ObjectId \<Rightarrow> string \<Rightarrow> Date \<Rightarrow> nat \<Rightarrow> LoopState
      \<Rightarrow> LoopState" where
  "invoke_loop llm env userId conversationId phoneNumber now 0 st = st"
| "invoke_loop llm env userId conversationId phoneNumber now (Suc n) st =
     (case llm (ls_messages st) of
        Inl e \<Rightarrow>
          st\<lparr>ls_completions := ls_completions st @ [ls_messages st], ls_thrown := Some e\<rparr>
      | Inr response \<Rightarrow>
          (let st1 = st\<lparr>ls_completions := ls_completions st @ [ls_messages st],
                         ls_messages := ls_messages st @
                           [AIMessage (ai_content response) (ai_tool_calls response)]\<rparr>
           in if ai_tool_calls response \<noteq> []
              then invoke_loop llm env userId conversationId phoneNumber now n
                     (run_tool_calls False env userId conversationId phoneNumber now
                        (ai_tool_calls response) st1)
              else st1\<lparr>ls_finalResponse := ai_content response\<rparr>))"

definition maxIterations :: nat where
  "maxIterations = 5"

text \<open>
  What a run leaves behind: the two collections, the completion calls it made, the
  events it emitted, its final text, and the error it threw, if any.
\<close>

record RunResult =
  rr_conversations :: "Conversation list"
  rr_reminders :: "Reminder list"
  rr_completions :: "BaseMessage list list"
  rr_events :: "AgentEvent list"
  rr_response :: string
  rr_thrown :: "error option"

text \<open>
  The conversation of a run: the one with the given identifier, which must exist, or the
  one \<open>getOrCreateForUser\<close> gives for the user and phone number.
\<close>

definition resolve_conversation ::
    "ObjectId \<Rightarrow> string \<Rightarrow> ObjectId option \<Rightarrow> Date \<Rightarrow> Conversation list
      \<Rightarrow> error + (Conversation \<times> Conversation list)" where
  "resolve_conversation userId phoneNumber conversationId now convs =
     (case conversationId of
        Some i \<Rightarrow>
          (case CR_findById i convs of
             Inl e \<Rightarrow> Inl e
           | Inr None \<Rightarrow> Inl (Error ''Conversation not found'')
           | Inr (Some existing) \<Rightarrow> Inr (existing, convs))
      | None \<Rightarrow> getOrCreateForUser userId (Some phoneNumber) now convs)"

text \<open>
  \<open>processMessageStream\<close>. The conversation object is the one resolved at the start;
  \<open>appendMessage\<close> works on a copy of its own and leaves that object as it was. The
  assistant message is appended only when \<open>finalResponse\<close> is not empty. An error
  thrown on the way ends the run and leaves what was written before it. A conversation
  loaded from the collection or created in it has an \<open>_id\<close>, so the assertion
  \<open>conversation._id!\<close> holds in every run; on a document without one the model ends the
  run with an error.
\<close>

definition processMessageStream ::
    "llm_stream \<Rightarrow> js_env \<Rightarrow> Date \<Rightarrow> ObjectId \<Rightarrow> string \<Rightarrow> string \<Rightarrow> ObjectId option
      \<Rightarrow> Conversation list \<times> Reminder list \<Rightarrow> RunResult" where
  "processMessageStream llm env now userId phoneNumber msg conversationId db =
     (case db of (convs, rems) \<Rightarrow>
     (case resolve_conversation userId phoneNumber conversationId now convs of
        Inl e \<Rightarrow>
          \<lparr>rr_conversations = convs, rr_reminders = rems, rr_completions = [],
           rr_events = [], rr_response = [], rr_thrown = Some e\<rparr>
      | Inr (conversation, convs1) \<Rightarrow>
          (case c_id conversation of
             None \<Rightarrow>
               \<lparr>rr_conversations = convs1, rr_reminders = rems, rr_completions = [],
                rr_events = [], rr_response = [],
                rr_thrown = Some (Error ''Cannot read properties of undefined'')\<rparr>
           | Some cid \<Rightarrow>
               (let events = [Conversation_id (ObjectId_toString env cid)]
                in case appendMessage cid User msg now convs1 of
                     Inl e \<Rightarrow>
                       \<lparr>rr_conversations = convs1, rr_reminders = rems, rr_completions = [],
                        rr_events = events, rr_response = [], rr_thrown = Some e\<rparr>
                   | Inr (appended, convs2) \<Rightarrow>
                       (let st = stream_loop llm env userId cid phoneNumber now maxIterations
                                   \<lparr>ls_messages = prepare_messages env now conversation msg,
                                    ls_reminders = rems, ls_finalResponse = [],
                                    ls_completions = [], ls_events = events,
                                    ls_thrown = None\<rparr>
                        in case ls_thrown st of
                             Some e \<Rightarrow>
                               \<lparr>rr_conversations = convs2, rr_reminders = ls_reminders st,
                                rr_completions = ls_completions st, rr_events = ls_events st,
                                rr_response = ls_finalResponse st, rr_thrown = Some e\<rparr>
                           | None \<Rightarrow>
                               if ls_finalResponse st \<noteq> []
                               then
                                 (case appendMessage cid Assistant (ls_finalResponse st) now convs2 of
                                    Inl e \<Rightarrow>
                                      \<lparr>rr_conversations = convs2,
                                       rr_reminders = ls_reminders st,
                                       rr_completions = ls_completions st,
                                       rr_events = ls_events st,
                                       rr_response = ls_finalResponse st, rr_thrown = Some e\<rparr>
                                  | Inr (appended', convs3) \<Rightarrow>
                                      \<lparr>rr_conversations = convs3,
                                       rr_reminders = ls_reminders st,
                                       rr_completions = ls_completions st,
                                       rr_events = ls_events st,
                                       rr_response = ls_finalResponse st, rr_thrown = None\<rparr>)
                               else
                                 \<lparr>rr_conversations = convs2, rr_reminders = ls_reminders st,
                                  rr_completions = ls_completions st, rr_events = ls_events st,
                                  rr_response = ls_finalResponse st, rr_thrown = None\<rparr>)))))"

text \<open>
  \<open>processMessage\<close>: no events, the single-shot loop, and the assistant message is
  appended with whatever \<open>finalResponse\<close> holds.
\<close>

definition processMessage ::
    "llm_invoke \<Rightarrow> js_env \<Rightarrow> Date \<Rightarrow> ObjectId \<Rightarrow> string \<Rightarrow> string \<Rightarrow> ObjectId option
      \<Rightarrow> Conversation list \<times> Reminder list \<Rightarrow> RunResult" where
  "processMessage llm env now userId phoneNumber msg conversationId db =
     (case db of (convs, rems) \<Rightarrow>
     (case resolve_conversation userId phoneNumber conversationId now convs of
        Inl e \<Rightarrow>
          \<lparr>rr_conversations = convs, rr_reminders = rems, rr_completions = [],
           rr_events = [], rr_response = [], rr_thrown = Some e\<rparr>
      | Inr (conversation, convs1) \<Rightarrow>
          (case c_id conversation of
             None \<Rightarrow>
               \<lparr>rr_conversations = convs1, rr_reminders = rems, rr_completions = [],
                rr_events = [], rr_response = [],
                rr_thrown = Some (Error ''Cannot read properties of undefined'')\<rparr>
           | Some cid \<Rightarrow>
               (case appendMessage cid User msg now convs1 of
                  Inl e \<Rightarrow>
                    \<lparr>rr_conversations = convs1, rr_reminders = rems, rr_completions = [],
                     rr_events = [], rr_response = [], rr_thrown = Some e\<rparr>
                | Inr (appended, convs2) \<Rightarrow>
                    (let st = invoke_loop llm env userId cid phoneNumber now maxIterations
                                \<lparr>ls_messages = prepare_messages env now conversation msg,
                                 ls_reminders = rems, ls_finalResponse = [],
                                 ls_completions = [], ls_events = [], ls_thrown = None\<rparr>
                     in case ls_thrown st of
                          Some e \<Rightarrow>
                            \<lparr>rr_conversations = convs2, rr_reminders = ls_reminders st,
                             rr_completions = ls_completions st, rr_events = ls_events st,
                             rr_response = ls_finalResponse st, rr_thrown = Some e\<rparr>
                        | None \<Rightarrow>
                            (case appendMessage cid Assistant (ls_finalResponse st) now convs2 of
                               Inl e \<Rightarrow>
                                 \<lparr>rr_conversations = convs2, rr_reminders = ls_reminders st,
                                  rr_completions = ls_completions st, rr_events = ls_events st,
                                  rr_response = ls_finalResponse st, rr_thrown = Some e\<rparr>
                             | Inr (appended', convs3) \<Rightarrow>
                                 \<lparr>rr_conversations = convs3, rr_reminders = ls_reminders st,
                                  rr_completions = ls_completions st, rr_events = ls_events st,
                                  rr_response = ls_finalResponse st, rr_thrown = None\<rparr>))))))"

section \<open>Concrete inputs\<close>

text \<open>
  A runtime for the examples: it parses two date strings, prints a date as the empty
  string, and reads and prints an identifier as one decimal digit.
\<close>

definition example_env :: js_env where
  "example_env =
     \<lparr>parseDate = (\<lambda>s. if s = ''2030-01-01T00:00:00.000Z'' then Some 1893456000000
                        else if s = ''2020-01-01T00:00:00.000Z'' then Some 1577836800000
                        else None),
      toISOString = (\<lambda>d. []),
      toLocaleString = (\<lambda>d. []),
      parseObjectId = (\<lambda>s. if s = ''1'' then Some 1 else if s = ''2'' then Some 2 else None),
      ObjectId_toString = (\<lambda>i. show_nat i)\<rparr>"

text \<open>An instant in 2025, between the two dates the example runtime parses.\<close>

definition example_now :: Date where
  "example_now = 1750000000000"

text \<open>An instant in 2031, after both dates.\<close>

definition example_later :: Date where
  "example_later = 1930000000000"

definition example_reminder :: "ReminderStatus \<Rightarrow> Reminder" where
  "example_reminder st =
     \<lparr>r_id = Some 1, r_userId = 7, r_conversationId = 3, r_phoneNumber = ''+15551234567'',
      r_title = ''call mom'', r_description = Present ''she is waiting'',
      r_scheduledFor = 1577836800000,
      r_status = st, r_createdAt = 1500000000000, r_updatedAt = 1500000000000\<rparr>"

definition example_conversation :: Conversation where
  "example_conversation =
     \<lparr>c_id = Some 4, c_userId = 7, c_phoneNumber = Present ''+15551234567'',
      c_title = ''Remind me to call mom'',
      c_messages =
        [\<lparr>m_role = User, m_content = ''Remind me to call mom'', m_timestamp = 1500000000000\<rparr>,
         \<lparr>m_role = Assistant, m_content = ''Done, tomorrow at 3pm'',
          m_timestamp = 1500000000001\<rparr>],
      c_createdAt = 1500000000000, c_updatedAt = 1500000000001,
      c_lastMessageAt = 1500000000001\<rparr>"

text \<open>
  Three reminders: the first two are due at \<open>example_now\<close>, the third is not. The channel
  fails the first send of a tick and delivers every later one.
\<close>

definition example_reminders :: "Reminder list" where
  "example_reminders =
     [example_reminder PENDING,
      (example_reminder PENDING)\<lparr>r_id := Some 2, r_title := ''water the plants''\<rparr>,
      (example_reminder PENDING)\<lparr>r_id := Some 3, r_scheduledFor := 1893456000000\<rparr>]"

definition example_channel :: channel where
  "example_channel outbox to body = (outbox \<noteq> [])"

text \<open>A completion client that proposes a call of \<open>list_reminders\<close> in every round.\<close>

definition list_call :: ToolCall where
  "list_call = \<lparr>tc_id = ''call_1'', tc_name = ''list_reminders'', tc_args = []\<rparr>"

definition always_tools_invoke :: llm_invoke where
  "always_tools_invoke msgs = Inr \<lparr>ai_content = [], ai_tool_calls = [list_call]\<rparr>"

definition always_tools_stream :: llm_stream where
  "always_tools_stream msgs =
     Inr \<lparr>sr_chunks = [\<lparr>ch_content = [], ch_has_tool_call_chunks = True\<rparr>],
          sr_tool_calls = [list_call]\<rparr>"

section \<open>Title generation\<close>



lemma length_first_line_le: "length (first_line s) \<le> length s"
  by (simp add: first_line_def length_takeWhile_le)



lemma addMessage_messages:
  "c_messages (addMessage role content now c) =
     c_messages c @ [\<lparr>m_role = role, m_content = content, m_timestamp = now\<rparr>]"
  by (simp add: addMessage_def Let_def)











section \<open>The tools: validation and ownership\<close>









section \<open>Conversation lookup by phone number\<close>

text \<open>
  C10. When \<open>getOrCreateForUser\<close> is called with a phone number that is given (and not
  empty) and the collection has a conversation with that phone number, the conversations
  with that phone number being documents that load, the first such conversation is
  returned as it is and the collection is unchanged, whoever the caller is: \<open>userId\<close>
  is arbitrary here and is not compared with the owner of the conversation.
\<close>

theorem C10_phone_lookup_ignores_owner:
  assumes "p \<noteq> []" "c' \<in> set convs" "c_phoneNumber c' = Present p"
    "\<And>d. d \<in> set convs \<Longrightarrow> c_phoneNumber d = Present p \<Longrightarrow> ConversationSchema_ok d"
  shows "\<exists>c. find (\<lambda>d. c_phoneNumber d = Present p) convs = Some c
            \<and> getOrCreateForUser userId (Some p) now convs = Inr (c, convs)"
proof -
  from assms(2,3) obtain c where f: "find (\<lambda>d. c_phoneNumber d = Present p) convs = Some c"
    by (cases "find (\<lambda>d. c_phoneNumber d = Present p) convs") (auto simp: find_None_iff)
  then have "c \<in> set convs" "c_phoneNumber c = Present p" by (auto simp: find_Some_iff)
  with assms(4) have ok: "ConversationSchema_ok c" by simp
  have "CR_findByPhoneNumber p convs = Inr (Some c)"
    using f ok by (simp add: CR_findByPhoneNumber_def CR_findOne_def
        Conversation_fromDocument_def new_Conversation_def)
  with assms(1) f show ?thesis by (simp add: getOrCreateForUser_def)
qed

theorem C10_phone_lookup_ignores_owner_witness:
  "c_userId example_conversation = 7
   \<and> getOrCreateForUser 8 (Some ''+15551234567'') example_now [example_conversation]
     = Inr (example_conversation, [example_conversation])"
  using C10_phone_lookup_ignores_owner [of "''+15551234567''" example_conversation
      "[example_conversation]" 8 example_now]
  by (simp add: example_conversation_def ConversationSchema_ok_def is_digit_def)

section \<open>The reminders collection\<close>

lemma fromDocuments_ok:
  "list_all ReminderSchema_ok docs \<Longrightarrow> Reminders_fromDocuments docs = Inr docs"
  by (induction docs) (simp_all add: Reminder_fromDocument_def new_Reminder_def)

lemma fromDocuments_same:
  "Reminders_fromDocuments docs = Inr rs \<Longrightarrow> rs = docs"
  by (induction docs arbitrary: rs)
     (auto simp add: Reminder_fromDocument_def new_Reminder_def split: if_splits sum.splits)

lemma fromDocument_same: "Reminder_fromDocument doc = Inr r \<Longrightarrow> r = doc"
  by (simp add: Reminder_fromDocument_def new_Reminder_def split: if_splits)

lemma fresh_ObjectId_bound: "Some k \<in> set ids \<Longrightarrow> k < fresh_ObjectId ids"
  unfolding fresh_ObjectId_def
  by (induction ids) (auto simp add: less_Suc_eq_le max_def)

lemma fresh_ObjectId_new: "Some (fresh_ObjectId ids) \<notin> set ids"
  using fresh_ObjectId_bound [of "fresh_ObjectId ids" ids] by auto

lemma update_first_const:
  "find P xs = Some d \<Longrightarrow> update_first P (\<lambda>x. g d) xs = update_first P g xs"
  by (induction xs) (auto split: if_splits)

lemma update_first_none: "find P xs = None \<Longrightarrow> update_first P g xs = xs"
  by (induction xs) (auto split: if_splits)

lemma update_first_ids:
  assumes "\<And>d. r_id d = Some i \<Longrightarrow> r_id (f d) = Some i"
  shows "map r_id (update_first (\<lambda>d. r_id d = Some i) f coll) = map r_id coll"
  using assms by (induction coll) auto

lemma update_first_distinct:
  assumes "distinct (map r_id coll)"
  shows "update_first (\<lambda>d. r_id d = Some i) f coll
           = map (\<lambda>d. if r_id d = Some i then f d else d) coll"
  using assms
proof (induction coll)
  case Nil
  then show ?case by simp
next
  case (Cons x xs)
  show ?case
  proof (cases "r_id x = Some i")
    case True
    with Cons.prems have "\<forall>d\<in>set xs. r_id d \<noteq> Some i" by (auto simp: image_iff)
    then have "map (\<lambda>d. if r_id d = Some i then f d else d) xs = xs"
      by (induction xs) auto
    with True show ?thesis by simp
  next
    case False
    with Cons show ?thesis by simp
  qed
qed

lemma findOne_id_update_first:
  assumes "\<And>d. r_id d = Some i \<Longrightarrow> r_id (f d) = Some i"
  shows "Reminder_findOne_id j (update_first (\<lambda>d. r_id d = Some i) f coll)
           = (if j = i then map_option f (Reminder_findOne_id i coll)
              else Reminder_findOne_id j coll)"
  using assms unfolding Reminder_findOne_id_def
  by (induction coll) auto

lemma findOne_id_map:
  assumes "\<And>d. r_id (g d) = r_id d"
  shows "Reminder_findOne_id j (map g coll) = map_option g (Reminder_findOne_id j coll)"
  using assms unfolding Reminder_findOne_id_def
  by (induction coll) auto

lemma findOne_id_append:
  "Reminder_findOne_id j coll = Some r \<Longrightarrow> Reminder_findOne_id j (coll @ ys) = Some r"
  unfolding Reminder_findOne_id_def by (induction coll) (auto split: if_splits)

lemma findOne_id_distinct:
  "distinct (map r_id coll) \<Longrightarrow> d \<in> set coll \<Longrightarrow> r_id d = Some k
     \<Longrightarrow> Reminder_findOne_id k coll = Some d"
  unfolding Reminder_findOne_id_def
  by (induction coll) (auto simp: image_iff)

lemma ids_ok_alt: "ids_ok coll \<longleftrightarrow> None \<notin> set (map r_id coll) \<and> distinct (map r_id coll)"
  by (simp add: ids_ok_def list_all_iff image_iff) (metis not_None_eq)

lemma ids_ok_same_ids: "map r_id coll' = map r_id coll \<Longrightarrow> ids_ok coll \<Longrightarrow> ids_ok coll'"
  unfolding ids_ok_alt by simp

lemma apply_set_id [simp]: "r_id (apply_set data now doc) = r_id doc"
  by (simp add: apply_set_def)

lemma apply_set_status:
  "r_status (apply_set data now doc)
     = (case p_status data of None \<Rightarrow> r_status doc | Some st \<Rightarrow> st)"
  by (simp add: apply_set_def)

lemma RR_update_coll:
  "snd (RR_update i data now coll)
     = update_first (\<lambda>d. r_id d = Some i) (apply_set data now) coll"
proof (cases "Reminder_findOne_id i coll")
  case None
  then show ?thesis
    by (simp add: RR_update_def Reminder_findOne_id_def update_first_none)
next
  case (Some doc)
  then have "update_first (\<lambda>d. r_id d = Some i) (\<lambda>d. apply_set data now doc) coll
      = update_first (\<lambda>d. r_id d = Some i) (apply_set data now) coll"
    unfolding Reminder_findOne_id_def by (rule update_first_const)
  with Some show ?thesis by (simp add: RR_update_def Let_def)
qed

lemma apply_set_sent:
  "apply_set \<lparr>p_title = None, p_description = None, p_scheduledFor = None,
              p_status = Some SENT\<rparr> now = (\<lambda>r. r\<lparr>r_status := SENT, r_updatedAt := now\<rparr>)"
  by (rule ext) (simp add: apply_set_def)

lemma markAsSent_coll:
  "snd (markAsSent i now coll)
     = update_first (\<lambda>d. r_id d = Some i) (\<lambda>r. r\<lparr>r_status := SENT, r_updatedAt := now\<rparr>) coll"
  by (simp add: markAsSent_def updateStatus_def RR_update_coll apply_set_sent)


section \<open>The scheduler tick\<close>

lemma delivered_subset: "set (delivered sendSMS env outbox ds) \<subseteq> set ds"
  by (induction ds arbitrary: outbox) auto

lemma sendReminder_step:
  assumes "r_id d = Some k" "distinct (map r_id cur)"
  shows "snd (sendReminder sendSMS env now d (cur, outbox))
          = (if sendSMS outbox (r_phoneNumber d) (formatReminderMessage env d)
             then map (\<lambda>r. if r_id r = Some k then r\<lparr>r_status := SENT, r_updatedAt := now\<rparr> else r) cur
             else cur,
             outbox @ [sms_of env d])"
proof -
  have "snd (markAsSent k now cur)
      = map (\<lambda>r. if r_id r = Some k then r\<lparr>r_status := SENT, r_updatedAt := now\<rparr> else r) cur"
    using assms(2) by (simp add: markAsSent_coll update_first_distinct)
  then show ?thesis
    using assms(1)
    by (cases "markAsSent k now cur") (auto simp add: sendReminder_def Let_def sms_of_def split: sum.splits)
qed

lemma send_due_result:
  assumes "distinct (map r_id cur)" "distinct (map r_id ds)" "list_all (\<lambda>d. r_id d \<noteq> None) ds"
  shows "send_due sendSMS env now ds (cur, outbox)
          = (map (\<lambda>r. if r_id r \<in> r_id ` set (delivered sendSMS env outbox ds)
                       then r\<lparr>r_status := SENT, r_updatedAt := now\<rparr> else r) cur,
             outbox @ map (sms_of env) ds)"
  using assms
proof (induction ds arbitrary: cur outbox)
  case Nil
  then show ?case by simp
next
  case (Cons d rest)
  from Cons.prems(3) obtain k where k: "r_id d = Some k" by auto
  let ?ok = "sendSMS outbox (r_phoneNumber d) (formatReminderMessage env d)"
  let ?mark = "\<lambda>r. r\<lparr>r_status := SENT, r_updatedAt := now\<rparr>"
  let ?cur' = "if ?ok then map (\<lambda>r. if r_id r = Some k then ?mark r else r) cur else cur"
  let ?D = "r_id ` set (delivered sendSMS env (outbox @ [sms_of env d]) rest)"
  have step: "snd (sendReminder sendSMS env now d (cur, outbox)) = (?cur', outbox @ [sms_of env d])"
    using sendReminder_step [OF k Cons.prems(1)] by simp
  have ids': "map r_id ?cur' = map r_id cur" by (auto simp add: comp_def)
  then have d': "distinct (map r_id ?cur')" using Cons.prems(1) by simp
  from Cons.prems have rest: "distinct (map r_id rest)" "list_all (\<lambda>d. r_id d \<noteq> None) rest"
    by simp_all
  have notin: "Some k \<notin> ?D"
    using Cons.prems(2) k delivered_subset [of sendSMS env "outbox @ [sms_of env d]" rest]
    by (auto simp: image_iff)
  have IH: "send_due sendSMS env now rest (?cur', outbox @ [sms_of env d])
          = (map (\<lambda>r. if r_id r \<in> ?D then ?mark r else r) ?cur',
             (outbox @ [sms_of env d]) @ map (sms_of env) rest)"
    by (rule Cons.IH [OF d' rest])
  have comb: "map (\<lambda>r. if r_id r \<in> ?D then ?mark r else r) ?cur'
      = map (\<lambda>r. if r_id r \<in> r_id ` set (delivered sendSMS env outbox (d # rest))
                       then ?mark r else r) cur"
    using notin k by (auto simp add: image_iff)
  show ?case
    using step IH comb by simp
qed


lemma due_ids:
  assumes "ids_ok coll"
  shows "distinct (map r_id (filter P coll))" "list_all (\<lambda>d. r_id d \<noteq> None) (filter P coll)"
  using assms by (auto simp add: ids_ok_def distinct_map_filter list_all_iff)

lemma member_by_id:
  assumes "distinct (map r_id coll)" "set ds \<subseteq> set coll" "r \<in> set coll"
  shows "r_id r \<in> r_id ` set ds \<longleftrightarrow> r \<in> set ds"
proof
  assume "r_id r \<in> r_id ` set ds"
  then obtain d where d: "d \<in> set ds" "r_id d = r_id r" by auto
  with assms have "d = r"
    by (meson distinct_map inj_on_def subsetD)
  with d show "r \<in> set ds" by simp
qed auto

lemma tick_result:
  assumes "ids_ok coll" "findDueReminders now coll = Inr due"
  shows "due = filter (\<lambda>r. r_status r = PENDING \<and> r_scheduledFor r \<le> now) coll"
    and "checkAndSendReminders sendSMS env now (coll, outbox)
          = (map (\<lambda>r. if r \<in> set (delivered sendSMS env outbox due)
                       then r\<lparr>r_status := SENT, r_updatedAt := now\<rparr> else r) coll,
             outbox @ map (sms_of env) due)"
proof -
  show due: "due = filter (\<lambda>r. r_status r = PENDING \<and> r_scheduledFor r \<le> now) coll"
    using assms(2) fromDocuments_same by (simp add: findDueReminders_def)
  have dist: "distinct (map r_id coll)" using assms(1) by (simp add: ids_ok_def)
  have sub: "set (delivered sendSMS env outbox due) \<subseteq> set coll"
    using delivered_subset [of sendSMS env outbox due] due by auto
  have "send_due sendSMS env now due (coll, outbox)
          = (map (\<lambda>r. if r_id r \<in> r_id ` set (delivered sendSMS env outbox due)
                       then r\<lparr>r_status := SENT, r_updatedAt := now\<rparr> else r) coll,
             outbox @ map (sms_of env) due)"
    using send_due_result [OF dist] due_ids [OF assms(1)] due by simp
  also have "map (\<lambda>r. if r_id r \<in> r_id ` set (delivered sendSMS env outbox due)
                       then r\<lparr>r_status := SENT, r_updatedAt := now\<rparr> else r) coll
      = map (\<lambda>r. if r \<in> set (delivered sendSMS env outbox due)
                       then r\<lparr>r_status := SENT, r_updatedAt := now\<rparr> else r) coll"
    using member_by_id [OF dist sub] by (intro map_cong) auto
  finally have sd: "send_due sendSMS env now due (coll, outbox)
          = (map (\<lambda>r. if r \<in> set (delivered sendSMS env outbox due)
                       then r\<lparr>r_status := SENT, r_updatedAt := now\<rparr> else r) coll,
             outbox @ map (sms_of env) due)" .
  show "checkAndSendReminders sendSMS env now (coll, outbox)
          = (map (\<lambda>r. if r \<in> set (delivered sendSMS env outbox due)
                       then r\<lparr>r_status := SENT, r_updatedAt := now\<rparr> else r) coll,
             outbox @ map (sms_of env) due)"
  proof (cases "due = []")
    case True
    with assms(2) show ?thesis by (simp add: checkAndSendReminders_def)
  next
    case False
    with assms(2) sd show ?thesis by (simp add: checkAndSendReminders_def)
  qed
qed

text \<open>
  A tick on a well-formed collection whose due documents all load: it selects exactly the
  reminders with status \<open>PENDING\<close> and \<open>scheduledFor \<le> now\<close>, attempts one send for each
  of them, in order, whatever the outcome of the other sends, and marks exactly those
  whose send succeeded.
\<close>

lemma tick_when_due_load:
  assumes "ids_ok coll"
    "list_all ReminderSchema_ok
       (filter (\<lambda>r. r_status r = PENDING \<and> r_scheduledFor r \<le> now) coll)"
  shows "findDueReminders now coll
           = Inr (filter (\<lambda>r. r_status r = PENDING \<and> r_scheduledFor r \<le> now) coll)
       \<and> snd (checkAndSendReminders sendSMS env now (coll, outbox))
           = outbox @ map (sms_of env)
               (filter (\<lambda>r. r_status r = PENDING \<and> r_scheduledFor r \<le> now) coll)
       \<and> fst (checkAndSendReminders sendSMS env now (coll, outbox))
           = map (\<lambda>r. if r \<in> set (delivered sendSMS env outbox
                             (filter (\<lambda>r. r_status r = PENDING \<and> r_scheduledFor r \<le> now) coll))
                      then r\<lparr>r_status := SENT, r_updatedAt := now\<rparr> else r) coll"
proof -
  let ?due = "filter (\<lambda>r. r_status r = PENDING \<and> r_scheduledFor r \<le> now) coll"
  have q: "findDueReminders now coll = Inr ?due"
    using assms(2) by (simp add: findDueReminders_def fromDocuments_ok)
  show ?thesis
    using q tick_result(2) [OF assms(1) q] by simp
qed

text \<open>A due document that does not load makes the query throw, and the tick does nothing.\<close>

lemma fromDocuments_refused:
  "\<not> list_all ReminderSchema_ok docs \<Longrightarrow> Reminders_fromDocuments docs = Inl ZodError"
  by (induction docs)
     (auto simp add: Reminder_fromDocument_def new_Reminder_def split: sum.splits)

lemma tick_when_due_does_not_load:
  assumes "\<not> list_all ReminderSchema_ok
       (filter (\<lambda>r. r_status r = PENDING \<and> r_scheduledFor r \<le> now) coll)"
  shows "checkAndSendReminders sendSMS env now (coll, outbox) = (coll, outbox)"
  using fromDocuments_refused [OF assms]
  by (simp add: checkAndSendReminders_def findDueReminders_def)

text \<open>
  C7, at a reminder that \<open>create_reminder\<close> stored without a description: the document
  holds \<open>null\<close> for the description, is pending and is due at the later instant, and the
  tick at that instant, with any channel, attempts no send and leaves the reminder
  pending. The same reminder with a description is selected, sent and marked \<open>SENT\<close>.
\<close>

theorem C7_tick_skips_reminder_without_description:
  "snd (create_reminder_tool example_env 7 4 ''+15551234567'' example_now
          [(''title'', JString ''call mom''),
           (''scheduledFor'', JString ''2030-01-01T00:00:00.000Z'')] [])
     = [\<lparr>r_id = Some 1, r_userId = 7, r_conversationId = 4, r_phoneNumber = ''+15551234567'',
         r_title = ''call mom'', r_description = Null, r_scheduledFor = 1893456000000,
         r_status = PENDING, r_createdAt = example_now, r_updatedAt = example_now\<rparr>]
   \<and> (1893456000000 :: int) \<le> example_later
   \<and> checkAndSendReminders sendSMS example_env example_later
        ([\<lparr>r_id = Some 1, r_userId = 7, r_conversationId = 4,
           r_phoneNumber = ''+15551234567'', r_title = ''call mom'', r_description = Null,
           r_scheduledFor = 1893456000000, r_status = PENDING, r_createdAt = example_now,
           r_updatedAt = example_now\<rparr>], [])
     = ([\<lparr>r_id = Some 1, r_userId = 7, r_conversationId = 4,
           r_phoneNumber = ''+15551234567'', r_title = ''call mom'', r_description = Null,
           r_scheduledFor = 1893456000000, r_status = PENDING, r_createdAt = example_now,
           r_updatedAt = example_now\<rparr>], [])
   \<and> map r_status (fst (checkAndSendReminders (\<lambda>outbox to body. True) example_env example_later
        ([\<lparr>r_id = Some 1, r_userId = 7, r_conversationId = 4,
           r_phoneNumber = ''+15551234567'', r_title = ''call mom'',
           r_description = Present ''she is waiting'', r_scheduledFor = 1893456000000,
           r_status = PENDING, r_createdAt = example_now, r_updatedAt = example_now\<rparr>], [])))
     = [SENT]
   \<and> map fst (snd (checkAndSendReminders (\<lambda>outbox to body. True) example_env example_later
        ([\<lparr>r_id = Some 1, r_userId = 7, r_conversationId = 4,
           r_phoneNumber = ''+15551234567'', r_title = ''call mom'',
           r_description = Present ''she is waiting'', r_scheduledFor = 1893456000000,
           r_status = PENDING, r_createdAt = example_now, r_updatedAt = example_now\<rparr>], [])))
     = [''+15551234567'']"
proof -
  have created: "snd (create_reminder_tool example_env 7 4 ''+15551234567'' example_now
          [(''title'', JString ''call mom''),
           (''scheduledFor'', JString ''2030-01-01T00:00:00.000Z'')] [])
     = [\<lparr>r_id = Some 1, r_userId = 7, r_conversationId = 4, r_phoneNumber = ''+15551234567'',
         r_title = ''call mom'', r_description = Null, r_scheduledFor = 1893456000000,
         r_status = PENDING, r_createdAt = example_now, r_updatedAt = example_now\<rparr>]"
    by (simp add: create_reminder_tool_def create_schema_def futureISODateSchema_def
        validateFutureISODate_def validateISODate_def isFutureDate_def create_reminder_func_def
        new_Reminder_def ReminderSchema_ok_def is_digit_def of_option_def RR_create_def
        Reminder_insertOne_def Reminder_updateTimestamp_def fresh_ObjectId_def stored_def
        Let_def example_env_def example_now_def)
  have skipped: "checkAndSendReminders sendSMS example_env example_later
        ([\<lparr>r_id = Some 1, r_userId = 7, r_conversationId = 4,
           r_phoneNumber = ''+15551234567'', r_title = ''call mom'', r_description = Null,
           r_scheduledFor = 1893456000000, r_status = PENDING, r_createdAt = example_now,
           r_updatedAt = example_now\<rparr>], [])
     = ([\<lparr>r_id = Some 1, r_userId = 7, r_conversationId = 4,
           r_phoneNumber = ''+15551234567'', r_title = ''call mom'', r_description = Null,
           r_scheduledFor = 1893456000000, r_status = PENDING, r_createdAt = example_now,
           r_updatedAt = example_now\<rparr>], [])"
    by (simp add: checkAndSendReminders_def findDueReminders_def Reminder_fromDocument_def
        new_Reminder_def ReminderSchema_ok_def example_later_def)
  have sent: "checkAndSendReminders (\<lambda>outbox to body. True) example_env example_later
        ([\<lparr>r_id = Some 1, r_userId = 7, r_conversationId = 4,
           r_phoneNumber = ''+15551234567'', r_title = ''call mom'',
           r_description = Present ''she is waiting'', r_scheduledFor = 1893456000000,
           r_status = PENDING, r_createdAt = example_now, r_updatedAt = example_now\<rparr>], [])
     = ([\<lparr>r_id = Some 1, r_userId = 7, r_conversationId = 4,
           r_phoneNumber = ''+15551234567'', r_title = ''call mom'',
           r_description = Present ''she is waiting'', r_scheduledFor = 1893456000000,
           r_status = SENT, r_createdAt = example_now, r_updatedAt = example_later\<rparr>],
         [(''+15551234567'',
           formatReminderMessage example_env
             \<lparr>r_id = Some 1, r_userId = 7, r_conversationId = 4,
              r_phoneNumber = ''+15551234567'', r_title = ''call mom'',
              r_description = Present ''she is waiting'', r_scheduledFor = 1893456000000,
              r_status = PENDING, r_createdAt = example_now, r_updatedAt = example_now\<rparr>)])"
    by (simp add: checkAndSendReminders_def findDueReminders_def Reminder_fromDocument_def
        new_Reminder_def ReminderSchema_ok_def is_digit_def example_later_def sendReminder_def
        markAsSent_def updateStatus_def RR_update_def Reminder_findOne_id_def apply_set_def
        Let_def)
  show ?thesis
    unfolding created skipped sent by (simp add: example_later_def)
qed

section \<open>Status transitions\<close>

lemma status_step_refl: "status_step a a"
  by (cases a) (simp_all add: status_step_def)

lemma status_step_trans: "status_step a b \<Longrightarrow> status_step b c \<Longrightarrow> status_step a c"
  by (cases a; cases b; cases c) (simp_all add: status_step_def)

lemma create_effect:
  "snd (create_reminder_tool env userId conversationId phoneNumber now args coll) = coll
   \<or> (\<exists>new. snd (create_reminder_tool env userId conversationId phoneNumber now args coll)
              = coll @ [new]
            \<and> r_id new = Some (fresh_ObjectId (map r_id coll)))"
  by (auto simp add: create_reminder_tool_def create_reminder_func_def RR_create_def
      Reminder_insertOne_def Reminder_updateTimestamp_def new_Reminder_def Let_def
      split: option.splits sum.splits if_splits)

lemma list_effect: "snd (list_reminders_tool env userId args coll) = coll"
  by (auto simp add: list_reminders_tool_def list_reminders_func_def Let_def
      split: option.splits sum.splits)

lemma update_effect:
  "snd (update_reminder_tool env userId now args coll) = coll
   \<or> (\<exists>i data. p_status data = None
          \<and> snd (update_reminder_tool env userId now args coll)
              = update_first (\<lambda>d. r_id d = Some i) (apply_set data now) coll)"
proof (cases "update_schema env now args")
  case None
  then show ?thesis by (simp add: update_reminder_tool_def)
next
  case (Some a)
  show ?thesis
  proof (cases "parseObjectId env (ua_reminderId a)")
    case None
    with Some show ?thesis by (simp add: update_reminder_tool_def update_reminder_func_def)
  next
    case i: (Some i)
    show ?thesis
    proof (cases "RR_findById i coll")
      case (Inl e)
      with Some i show ?thesis by (simp add: update_reminder_tool_def update_reminder_func_def)
    next
      case (Inr found)
      show ?thesis
      proof (cases "\<exists>existing. found = Some existing \<and> r_userId existing = userId")
        case False
        with Some i Inr show ?thesis
          by (cases found) (auto simp add: update_reminder_tool_def update_reminder_func_def)
      next
        case True
        then obtain existing where ex: "found = Some existing" "r_userId existing = userId"
          by auto
        let ?data = "\<lparr>p_title = (case ua_title a of None \<Rightarrow> None
                                    | Some t \<Rightarrow> if t \<noteq> [] then Some t else None),
                         p_description = ua_description a,
                         p_scheduledFor = ua_scheduledFor a,
                         p_status = None\<rparr>"
        have "snd (update_reminder_tool env userId now args coll)
                = snd (RR_update i ?data now coll)"
          using Some i Inr ex
          by (cases "RR_update i ?data now coll")
             (auto simp add: update_reminder_tool_def update_reminder_func_def Let_def
               split: sum.splits option.splits)
        then have "snd (update_reminder_tool env userId now args coll)
                = update_first (\<lambda>d. r_id d = Some i) (apply_set ?data now) coll"
          by (simp add: RR_update_coll)
        moreover have "p_status ?data = None" by simp
        ultimately show ?thesis by blast
      qed
    qed
  qed
qed

lemma delete_effect:
  "snd (delete_reminder_tool env userId now args coll) = coll
   \<or> (\<exists>i data. p_status data = Some CANCELLED
          \<and> snd (delete_reminder_tool env userId now args coll)
              = update_first (\<lambda>d. r_id d = Some i) (apply_set data now) coll)"
proof (cases "delete_schema args")
  case None
  then show ?thesis by (simp add: delete_reminder_tool_def)
next
  case (Some reminderId)
  show ?thesis
  proof (cases "parseObjectId env reminderId")
    case None
    with Some show ?thesis by (simp add: delete_reminder_tool_def delete_reminder_func_def)
  next
    case i: (Some i)
    show ?thesis
    proof (cases "RR_findById i coll")
      case (Inl e)
      with Some i show ?thesis by (simp add: delete_reminder_tool_def delete_reminder_func_def)
    next
      case (Inr found)
      show ?thesis
      proof (cases "\<exists>existing. found = Some existing \<and> r_userId existing = userId")
        case False
        with Some i Inr show ?thesis
          by (cases found) (auto simp add: delete_reminder_tool_def delete_reminder_func_def)
      next
        case True
        then obtain existing where ex: "found = Some existing" "r_userId existing = userId"
          by auto
        let ?data = "\<lparr>p_title = None, p_description = None, p_scheduledFor = None,
                         p_status = Some CANCELLED\<rparr>"
        have "snd (delete_reminder_tool env userId now args coll)
                = snd (RR_update i ?data now coll)"
          using Some i Inr ex
          by (cases "RR_update i ?data now coll")
             (auto simp add: delete_reminder_tool_def delete_reminder_func_def cancelReminder_def
               updateStatus_def split: sum.splits option.splits)
        then have "snd (delete_reminder_tool env userId now args coll)
                = update_first (\<lambda>d. r_id d = Some i) (apply_set ?data now) coll"
          by (simp add: RR_update_coll)
        moreover have "p_status ?data = Some CANCELLED" by simp
        ultimately show ?thesis by blast
      qed
    qed
  qed
qed

lemma sendReminder_effect:
  "fst (snd (sendReminder sendSMS env now reminder (coll, outbox))) = coll
   \<or> (\<exists>i data. p_status data = Some SENT
          \<and> fst (snd (sendReminder sendSMS env now reminder (coll, outbox)))
              = update_first (\<lambda>d. r_id d = Some i) (apply_set data now) coll)"
proof (cases "sendSMS outbox (r_phoneNumber reminder) (formatReminderMessage env reminder)
               \<and> r_id reminder \<noteq> None")
  case False
  then show ?thesis
    by (auto simp add: sendReminder_def Let_def split: option.splits)
next
  case True
  then obtain i where i: "r_id reminder = Some i" by auto
  let ?data = "\<lparr>p_title = None, p_description = None, p_scheduledFor = None,
                 p_status = Some SENT\<rparr>"
  have "fst (snd (sendReminder sendSMS env now reminder (coll, outbox)))
      = snd (RR_update i ?data now coll)"
    using True i
    by (cases "RR_update i ?data now coll")
       (auto simp add: sendReminder_def markAsSent_def updateStatus_def Let_def
         split: sum.splits)
  then have "fst (snd (sendReminder sendSMS env now reminder (coll, outbox)))
      = update_first (\<lambda>d. r_id d = Some i) (apply_set ?data now) coll"
    by (simp add: RR_update_coll)
  moreover have "p_status ?data = Some SENT" by simp
  ultimately show ?thesis by blast
qed

lemma step_ok_same: "step_ok coll coll"
  by (simp add: step_ok_def status_step_refl)

lemma step_ok_trans: "step_ok a b \<Longrightarrow> step_ok b c \<Longrightarrow> step_ok a c"
  unfolding step_ok_def by (meson status_step_trans)

lemma step_ok_append: "step_ok coll (coll @ ys)"
  by (auto simp add: step_ok_def findOne_id_append status_step_refl)

lemma step_ok_patch:
  assumes "p_status data \<noteq> Some PENDING"
  shows "step_ok coll (update_first (\<lambda>d. r_id d = Some i) (apply_set data now) coll)"
proof -
  have "status_step (r_status r) (r_status (apply_set data now r))" for r
    using assms
    by (cases "p_status data"; cases "r_status r"; cases "the (p_status data)")
       (simp_all add: apply_set_status status_step_def)
  then show ?thesis
    by (auto simp add: step_ok_def findOne_id_update_first status_step_refl)
qed

lemma sendReminder_step_ok:
  "step_ok coll (fst (snd (sendReminder sendSMS env now reminder (coll, outbox))))"
  using sendReminder_effect [of sendSMS env now reminder coll outbox]
  by (auto simp add: step_ok_same step_ok_patch)

lemma send_due_step_ok:
  "step_ok coll (fst (send_due sendSMS env now ds (coll, outbox)))"
proof (induction ds arbitrary: coll outbox)
  case Nil
  then show ?case by (simp add: step_ok_same)
next
  case (Cons d ds)
  obtain e coll' outbox' where s: "sendReminder sendSMS env now d (coll, outbox) = (e, coll', outbox')"
    by (cases "sendReminder sendSMS env now d (coll, outbox)") auto
  have "step_ok coll coll'"
    using sendReminder_step_ok [of coll sendSMS env now d outbox] s by simp
  moreover have "step_ok coll' (fst (send_due sendSMS env now ds (coll', outbox')))"
    by (rule Cons.IH)
  ultimately show ?case using s by (auto intro: step_ok_trans)
qed

lemma tick_step:
  "step_ok coll (fst (checkAndSendReminders sendSMS env now (coll, outbox)))"
  by (cases "findDueReminders now coll")
     (simp_all add: checkAndSendReminders_def step_ok_same send_due_step_ok)

lemma tool_step:
  assumes "invoke_tool env userId conversationId phoneNumber now name args coll = Some (out, coll')"
  shows "step_ok coll coll'"
proof -
  consider (c) "name = ''create_reminder''" | (l) "name = ''list_reminders''"
    | (u) "name = ''update_reminder''" | (d) "name = ''delete_reminder''"
    using assms by (auto simp add: invoke_tool_def split: if_splits)
  then show ?thesis
  proof cases
    case c
    with assms have "coll' = snd (create_reminder_tool env userId conversationId phoneNumber
        now args coll)"
      by (simp add: invoke_tool_def)
    then show ?thesis
      using create_effect [of env userId conversationId phoneNumber now args coll]
      by (auto simp add: step_ok_same step_ok_append)
  next
    case l
    with assms have "coll' = snd (list_reminders_tool env userId args coll)"
      by (auto simp add: invoke_tool_def)
    then show ?thesis by (simp add: list_effect step_ok_same)
  next
    case u
    with assms have "coll' = snd (update_reminder_tool env userId now args coll)"
      by (auto simp add: invoke_tool_def)
    then show ?thesis
      using update_effect [of env userId now args coll]
      by (auto simp add: step_ok_same step_ok_patch)
  next
    case d
    with assms have "coll' = snd (delete_reminder_tool env userId now args coll)"
      by (auto simp add: invoke_tool_def)
    then show ?thesis
      using delete_effect [of env userId now args coll]
      by (auto simp add: step_ok_same step_ok_patch)
  qed
qed

lemma operation_step: "step_ok coll (apply_operation env now op coll)"
proof (cases op)
  case (Tool_call userId conversationId phoneNumber name args)
  show ?thesis
  proof (cases "invoke_tool env userId conversationId phoneNumber now name args coll")
    case None
    with Tool_call show ?thesis by (simp add: apply_operation_def step_ok_same)
  next
    case (Some res)
    then obtain out coll' where
      "invoke_tool env userId conversationId phoneNumber now name args coll = Some (out, coll')"
      by (cases res) auto
    with Tool_call tool_step [OF this] show ?thesis
      by (simp add: apply_operation_def)
  qed
next
  case (Scheduler_tick sendSMS)
  with tick_step show ?thesis by (simp add: apply_operation_def)
next
  case (Scheduler_sendReminder sendSMS reminder)
  with sendReminder_step_ok show ?thesis by (simp add: apply_operation_def)
qed

lemma run_operations_step: "step_ok coll (run_operations env ops coll)"
proof (induction ops arbitrary: coll)
  case Nil
  then show ?case by (simp add: step_ok_same)
next
  case (Cons a ops)
  obtain now op where a: "a = (now, op)" by (cases a)
  have "step_ok coll (apply_operation env now op coll)"
    by (rule operation_step)
  moreover have "step_ok (apply_operation env now op coll)
      (run_operations env ops (apply_operation env now op coll))"
    by (rule Cons.IH)
  ultimately show ?case using a by (auto intro: step_ok_trans)
qed

text \<open>
  C2 (amended). For every stored reminder and every sequence of tool invocations, scheduler
  ticks and single \<open>sendReminder\<close> steps of a tick, in any order, the reminder stays in
  the collection and its status moves only along \<open>status_step\<close>: a reminder that is
  sent or cancelled is sent or cancelled ever after, and none returns to pending.
\<close>

theorem C2_status_transitions:
  assumes "Reminder_findOne_id i coll = Some r"
  shows "\<exists>r'. Reminder_findOne_id i (run_operations env ops coll) = Some r'
            \<and> (r_status r' = PENDING \<longrightarrow> r_status r = PENDING)
            \<and> status_step (r_status r) (r_status r')"
proof -
  obtain r' where r': "Reminder_findOne_id i (run_operations env ops coll) = Some r'"
      "status_step (r_status r) (r_status r')"
    using run_operations_step [of coll env ops] assms by (auto simp add: step_ok_def)
  then have "r_status r' = PENDING \<longrightarrow> r_status r = PENDING"
    by (auto simp add: status_step_def)
  with r' show ?thesis by blast
qed

theorem C2_status_transitions_witness:
  "Reminder_findOne_id 1 [example_reminder SENT] = Some (example_reminder SENT)
   \<and> map r_status
        (run_operations example_env
           [(example_now,
             Tool_call 7 4 ''+15551234567'' ''update_reminder''
               [(''reminderId'', JString ''1''), (''title'', JString ''call dad'')]),
            (example_now,
             Tool_call 7 4 ''+15551234567'' ''delete_reminder'' [(''reminderId'', JString ''1'')]),
            (example_now, Scheduler_tick (\<lambda>outbox to body. True))]
           [example_reminder SENT])
      = [CANCELLED]
   \<and> status_step SENT CANCELLED \<and> \<not> status_step SENT PENDING
   \<and> \<not> status_step CANCELLED PENDING"
proof -
  have b: "Reminder_findOne_id 1 [example_reminder SENT] = Some (example_reminder SENT)"
    by (simp add: Reminder_findOne_id_def example_reminder_def)
  have c: "run_operations example_env
           [(example_now,
             Tool_call 7 4 ''+15551234567'' ''update_reminder''
               [(''reminderId'', JString ''1''), (''title'', JString ''call dad'')]),
            (example_now,
             Tool_call 7 4 ''+15551234567'' ''delete_reminder'' [(''reminderId'', JString ''1'')]),
            (example_now, Scheduler_tick (\<lambda>outbox to body. True))]
           [example_reminder SENT]
       = [(example_reminder CANCELLED)\<lparr>r_title := ''call dad'', r_updatedAt := example_now\<rparr>]"
    by (simp add: apply_operation_def checkAndSendReminders_def findDueReminders_def
        Reminder_fromDocument_def new_Reminder_def ReminderSchema_ok_def is_digit_def
        updateStatus_def RR_update_def Reminder_findOne_id_def
        apply_set_def Let_def invoke_tool_def update_reminder_tool_def update_schema_def
        futureISODateSchema_optional_def update_reminder_func_def RR_findById_def
        delete_reminder_tool_def delete_schema_def delete_reminder_func_def cancelReminder_def
        example_env_def example_now_def example_reminder_def)
  show ?thesis
    using C2_status_transitions [OF b, of example_env
        "[(example_now,
             Tool_call 7 4 ''+15551234567'' ''update_reminder''
               [(''reminderId'', JString ''1''), (''title'', JString ''call dad'')]),
            (example_now,
             Tool_call 7 4 ''+15551234567'' ''delete_reminder'' [(''reminderId'', JString ''1'')]),
            (example_now, Scheduler_tick (\<lambda>outbox to body. True))]"]
      b c
    by (simp add: Reminder_findOne_id_def example_reminder_def status_step_def)
qed

text \<open>
  C2 as stated fails, in both directions. \<open>delete_reminder\<close> by the owner moves a
  reminder that was already sent to cancelled. And a tick whose query has returned a
  pending reminder marks it sent after a \<open>delete_reminder\<close> that came in between has
  cancelled it: \<open>markAsSent\<close> selects by \<open>_id\<close> alone.
\<close>

theorem C2_counterexample:
  "r_status (example_reminder SENT) = SENT
   \<and> map r_status
        (run_operations example_env
           [(example_now,
             Tool_call 7 4 ''+15551234567'' ''delete_reminder'' [(''reminderId'', JString ''1'')])]
           [example_reminder SENT])
      = [CANCELLED]
   \<and> findDueReminders example_now [example_reminder PENDING] = Inr [example_reminder PENDING]
   \<and> map r_status
        (run_operations example_env
           [(example_now,
             Tool_call 7 4 ''+15551234567'' ''delete_reminder'' [(''reminderId'', JString ''1'')])]
           [example_reminder PENDING])
      = [CANCELLED]
   \<and> map r_status
        (run_operations example_env
           [(example_now,
             Tool_call 7 4 ''+15551234567'' ''delete_reminder'' [(''reminderId'', JString ''1'')]),
            (example_now,
             Scheduler_sendReminder (\<lambda>outbox to body. True) (example_reminder PENDING))]
           [example_reminder PENDING])
      = [SENT]"
  by (simp add: apply_operation_def Reminder_fromDocument_def new_Reminder_def
        ReminderSchema_ok_def is_digit_def updateStatus_def RR_update_def Reminder_findOne_id_def
        apply_set_def Let_def invoke_tool_def RR_findById_def findDueReminders_def
        delete_reminder_tool_def delete_schema_def delete_reminder_func_def cancelReminder_def
        sendReminder_def markAsSent_def
        example_env_def example_now_def example_reminder_def)

section \<open>Well-formed collections\<close>

lemma ids_ok_append:
  "ids_ok coll \<Longrightarrow> r_id new = Some (fresh_ObjectId (map r_id coll)) \<Longrightarrow> ids_ok (coll @ [new])"
  using fresh_ObjectId_new [of "map r_id coll"]
  by (auto simp add: ids_ok_def)

lemma ids_ok_patch:
  "ids_ok coll \<Longrightarrow> ids_ok (update_first (\<lambda>d. r_id d = Some i) (apply_set data now) coll)"
proof -
  have "map r_id (update_first (\<lambda>d. r_id d = Some i) (apply_set data now) coll) = map r_id coll"
    by (rule update_first_ids) simp
  then show "ids_ok coll \<Longrightarrow> ?thesis" by (rule ids_ok_same_ids)
qed

lemma send_due_ids_ok:
  "ids_ok coll \<Longrightarrow> ids_ok (fst (send_due sendSMS env now ds (coll, outbox)))"
proof (induction ds arbitrary: coll outbox)
  case Nil
  then show ?case by simp
next
  case (Cons d ds)
  obtain e coll' outbox' where s: "sendReminder sendSMS env now d (coll, outbox) = (e, coll', outbox')"
    by (cases "sendReminder sendSMS env now d (coll, outbox)") auto
  have "ids_ok coll'"
    using sendReminder_effect [of sendSMS env now d coll outbox] s Cons.prems
    by (auto simp add: ids_ok_patch)
  from Cons.IH [OF this] s show ?case by simp
qed

text \<open>Every collection the operations make of a well-formed one is well-formed.\<close>

lemma operation_keeps_ids:
  assumes "ids_ok coll"
  shows "ids_ok (apply_operation env now op coll)"
proof (cases op)
  case (Tool_call userId conversationId phoneNumber name args)
  show ?thesis
  proof (cases "invoke_tool env userId conversationId phoneNumber now name args coll")
    case None
    with Tool_call assms show ?thesis by (simp add: apply_operation_def)
  next
    case (Some res)
    then obtain out coll' where
      inv: "invoke_tool env userId conversationId phoneNumber now name args coll = Some (out, coll')"
      by (cases res) auto
    consider (c) "name = ''create_reminder''" | (l) "name = ''list_reminders''"
      | (u) "name = ''update_reminder''" | (d) "name = ''delete_reminder''"
      using inv by (auto simp add: invoke_tool_def split: if_splits)
    then have "ids_ok coll'"
    proof cases
      case c
      with inv have "coll' = snd (create_reminder_tool env userId conversationId phoneNumber
          now args coll)"
        by (simp add: invoke_tool_def)
      then show ?thesis
        using create_effect [of env userId conversationId phoneNumber now args coll] assms
        by (auto simp add: ids_ok_append)
    next
      case l
      with inv have "coll' = snd (list_reminders_tool env userId args coll)"
        by (auto simp add: invoke_tool_def)
      then show ?thesis using assms by (simp add: list_effect)
    next
      case u
      with inv have "coll' = snd (update_reminder_tool env userId now args coll)"
        by (auto simp add: invoke_tool_def)
      then show ?thesis
        using update_effect [of env userId now args coll] assms
        by (auto simp add: ids_ok_patch)
    next
      case d
      with inv have "coll' = snd (delete_reminder_tool env userId now args coll)"
        by (auto simp add: invoke_tool_def)
      then show ?thesis
        using delete_effect [of env userId now args coll] assms
        by (auto simp add: ids_ok_patch)
    qed
    with Tool_call inv show ?thesis by (simp add: apply_operation_def)
  qed
next
  case (Scheduler_tick sendSMS)
  show ?thesis
    using Scheduler_tick assms send_due_ids_ok [OF assms]
    by (cases "findDueReminders now coll")
       (simp_all add: apply_operation_def checkAndSendReminders_def)
next
  case (Scheduler_sendReminder sendSMS reminder)
  show ?thesis
    using Scheduler_sendReminder assms sendReminder_effect [of sendSMS env now reminder coll "[]"]
    by (auto simp add: apply_operation_def ids_ok_patch)
qed

lemma run_operations_keeps_ids:
  "ids_ok coll \<Longrightarrow> ids_ok (run_operations env ops coll)"
proof (induction ops arbitrary: coll)
  case Nil
  then show ?case by simp
next
  case (Cons a ops)
  obtain now op where a: "a = (now, op)" by (cases a)
  have "ids_ok (apply_operation env now op coll)"
    by (rule operation_keeps_ids [OF Cons.prems])
  from Cons.IH [OF this] a show ?case by simp
qed

section \<open>The agent loop\<close>

lemma run_tool_call_frame:
  "ls_completions (run_tool_call emit env userId conversationId phoneNumber now toolCall st)
     = ls_completions st"
  "ls_thrown (run_tool_call emit env userId conversationId phoneNumber now toolCall st)
     = ls_thrown st"
  "ls_finalResponse (run_tool_call emit env userId conversationId phoneNumber now toolCall st)
     = ls_finalResponse st"
  by (simp_all add: run_tool_call_def Let_def split: option.splits prod.splits)

lemma run_tool_calls_frame:
  "ls_completions (run_tool_calls emit env userId conversationId phoneNumber now calls st)
     = ls_completions st"
  "ls_thrown (run_tool_calls emit env userId conversationId phoneNumber now calls st)
     = ls_thrown st"
  "ls_finalResponse (run_tool_calls emit env userId conversationId phoneNumber now calls st)
     = ls_finalResponse st"
  by (induction calls arbitrary: st) (simp_all add: run_tool_call_frame)

lemma stream_loop_bound:
  "length (ls_completions (stream_loop llm env userId conversationId phoneNumber now n st))
     \<le> length (ls_completions st) + n"
proof (induction n arbitrary: st)
  case 0
  then show ?case by simp
next
  case (Suc n)
  show ?case
  proof (cases "llm (ls_messages st)")
    case (Inl e)
    then show ?thesis by simp
  next
    case (Inr resp)
    show ?thesis
    proof (cases "sr_chunks resp \<noteq> [] \<and> sr_tool_calls resp \<noteq> []")
      case False
      with Inr show ?thesis by (auto simp add: Let_def)
    next
      case True
      let ?st' = "run_tool_calls True env userId conversationId phoneNumber now
                    (sr_tool_calls resp)
                    (st\<lparr>ls_completions := ls_completions st @ [ls_messages st],
                        ls_finalResponse := ls_finalResponse st @
                          concat (map ch_content (filter (\<lambda>ch. ch_content ch \<noteq> []) (sr_chunks resp))),
                        ls_events := ls_events st @
                          map (\<lambda>ch. Token (ch_content ch))
                            (filter (\<lambda>ch. \<not> ch_has_tool_call_chunks ch)
                               (filter (\<lambda>ch. ch_content ch \<noteq> []) (sr_chunks resp))),
                        ls_messages := ls_messages st @
                          [AIMessage (concat (map ch_content (sr_chunks resp))) (sr_tool_calls resp)],
                        ls_finalResponse := []\<rparr>)"
      have eq: "stream_loop llm env userId conversationId phoneNumber now (Suc n) st
          = stream_loop llm env userId conversationId phoneNumber now n ?st'"
        using Inr True by (simp add: Let_def)
      have "length (ls_completions ?st') = length (ls_completions st) + 1"
        by (simp add: run_tool_calls_frame)
      with Suc.IH [of ?st'] eq show ?thesis by simp
    qed
  qed
qed

lemma invoke_loop_bound:
  "length (ls_completions (invoke_loop llm env userId conversationId phoneNumber now n st))
     \<le> length (ls_completions st) + n"
proof (induction n arbitrary: st)
  case 0
  then show ?case by simp
next
  case (Suc n)
  show ?case
  proof (cases "llm (ls_messages st)")
    case (Inl e)
    then show ?thesis by simp
  next
    case (Inr response)
    show ?thesis
    proof (cases "ai_tool_calls response \<noteq> []")
      case False
      with Inr show ?thesis by (simp add: Let_def)
    next
      case True
      let ?st' = "run_tool_calls False env userId conversationId phoneNumber now
                    (ai_tool_calls response)
                    (st\<lparr>ls_completions := ls_completions st @ [ls_messages st],
                        ls_messages := ls_messages st @
                          [AIMessage (ai_content response) (ai_tool_calls response)]\<rparr>)"
      have eq: "invoke_loop llm env userId conversationId phoneNumber now (Suc n) st
          = invoke_loop llm env userId conversationId phoneNumber now n ?st'"
        using Inr True by (simp add: Let_def)
      have "length (ls_completions ?st') = length (ls_completions st) + 1"
        by (simp add: run_tool_calls_frame)
      with Suc.IH [of ?st'] eq show ?thesis by simp
    qed
  qed
qed

lemma stream_loop_budget:
  "ls_completions st = []
     \<Longrightarrow> length (ls_completions
           (stream_loop llm env userId conversationId phoneNumber now maxIterations st)) \<le> 5"
  using stream_loop_bound [of llm env userId conversationId phoneNumber now maxIterations st]
  by (simp add: maxIterations_def)

lemma invoke_loop_budget:
  "ls_completions st = []
     \<Longrightarrow> length (ls_completions
           (invoke_loop llm env userId conversationId phoneNumber now maxIterations st)) \<le> 5"
  using invoke_loop_bound [of llm env userId conversationId phoneNumber now maxIterations st]
  by (simp add: maxIterations_def)

lemma processMessageStream_budget:
  "length (rr_completions
      (processMessageStream llm env now userId phoneNumber msg conversationId db)) \<le> 5"
  by (cases db)
     (simp add: processMessageStream_def Let_def stream_loop_budget
        split: sum.splits option.splits prod.splits)

lemma processMessage_budget:
  "length (rr_completions
      (processMessage llm env now userId phoneNumber msg conversationId db)) \<le> 5"
  by (cases db)
     (simp add: processMessage_def Let_def invoke_loop_budget
        split: sum.splits option.splits prod.splits)

text \<open>A client that proposes tool calls in every round uses the whole budget.\<close>

lemma stream_loop_exhausts:
  assumes "\<And>m. \<exists>resp. llm m = Inr resp \<and> sr_chunks resp \<noteq> [] \<and> sr_tool_calls resp \<noteq> []"
  shows "length (ls_completions (stream_loop llm env userId conversationId phoneNumber now n st))
           = length (ls_completions st) + n
         \<and> ls_finalResponse (stream_loop llm env userId conversationId phoneNumber now n st)
           = (if n = 0 then ls_finalResponse st else [])
         \<and> ls_thrown (stream_loop llm env userId conversationId phoneNumber now n st)
           = ls_thrown st"
proof (induction n arbitrary: st)
  case 0
  then show ?case by simp
next
  case (Suc n)
  from assms obtain resp where r: "llm (ls_messages st) = Inr resp" "sr_chunks resp \<noteq> []"
      "sr_tool_calls resp \<noteq> []"
    by blast
  let ?st' = "run_tool_calls True env userId conversationId phoneNumber now
                    (sr_tool_calls resp)
                    (st\<lparr>ls_completions := ls_completions st @ [ls_messages st],
                        ls_finalResponse := ls_finalResponse st @
                          concat (map ch_content (filter (\<lambda>ch. ch_content ch \<noteq> []) (sr_chunks resp))),
                        ls_events := ls_events st @
                          map (\<lambda>ch. Token (ch_content ch))
                            (filter (\<lambda>ch. \<not> ch_has_tool_call_chunks ch)
                               (filter (\<lambda>ch. ch_content ch \<noteq> []) (sr_chunks resp))),
                        ls_messages := ls_messages st @
                          [AIMessage (concat (map ch_content (sr_chunks resp))) (sr_tool_calls resp)],
                        ls_finalResponse := []\<rparr>)"
  have eq: "stream_loop llm env userId conversationId phoneNumber now (Suc n) st
          = stream_loop llm env userId conversationId phoneNumber now n ?st'"
    using r by (simp add: Let_def)
  have "length (ls_completions ?st') = length (ls_completions st) + 1"
    "ls_finalResponse ?st' = []" "ls_thrown ?st' = ls_thrown st"
    by (simp_all add: run_tool_calls_frame)
  with Suc.IH [of ?st'] eq show ?case by simp
qed

lemma invoke_loop_exhausts:
  assumes "\<And>m. \<exists>response. llm m = Inr response \<and> ai_tool_calls response \<noteq> []"
  shows "length (ls_completions (invoke_loop llm env userId conversationId phoneNumber now n st))
           = length (ls_completions st) + n
         \<and> ls_finalResponse (invoke_loop llm env userId conversationId phoneNumber now n st)
           = ls_finalResponse st
         \<and> ls_thrown (invoke_loop llm env userId conversationId phoneNumber now n st)
           = ls_thrown st"
proof (induction n arbitrary: st)
  case 0
  then show ?case by simp
next
  case (Suc n)
  from assms obtain response where r: "llm (ls_messages st) = Inr response"
      "ai_tool_calls response \<noteq> []"
    by blast
  let ?st' = "run_tool_calls False env userId conversationId phoneNumber now
                    (ai_tool_calls response)
                    (st\<lparr>ls_completions := ls_completions st @ [ls_messages st],
                        ls_messages := ls_messages st @
                          [AIMessage (ai_content response) (ai_tool_calls response)]\<rparr>)"
  have eq: "invoke_loop llm env userId conversationId phoneNumber now (Suc n) st
          = invoke_loop llm env userId conversationId phoneNumber now n ?st'"
    using r by (simp add: Let_def)
  have "length (ls_completions ?st') = length (ls_completions st) + 1"
    "ls_finalResponse ?st' = ls_finalResponse st" "ls_thrown ?st' = ls_thrown st"
    by (simp_all add: run_tool_calls_frame)
  with Suc.IH [of ?st'] eq show ?case by simp
qed

text \<open>
  C4. Whatever the completion client does and whatever the inbound message and the
  database are, a run of either loop makes at most 5 completion calls. A client that
  proposes tool calls in every round gets exactly 5 calls out of the loop: once the budget
  is used up the loop ends without another call.
\<close>

theorem C4_iteration_budget:
  "length (rr_completions
      (processMessageStream llm env now userId phoneNumber msg conversationId db)) \<le> 5
   \<and> length (rr_completions
      (processMessage llm' env now userId phoneNumber msg conversationId db)) \<le> 5
   \<and> ((\<forall>m. \<exists>resp. llm m = Inr resp \<and> sr_chunks resp \<noteq> [] \<and> sr_tool_calls resp \<noteq> []) \<longrightarrow>
        length (ls_completions
          (stream_loop llm env userId cid phoneNumber now maxIterations st))
          = length (ls_completions st) + 5)
   \<and> ((\<forall>m. \<exists>response. llm' m = Inr response \<and> ai_tool_calls response \<noteq> []) \<longrightarrow>
        length (ls_completions
          (invoke_loop llm' env userId cid phoneNumber now maxIterations st))
          = length (ls_completions st) + 5)"
  using processMessageStream_budget [of llm env now userId phoneNumber msg conversationId db]
    processMessage_budget [of llm' env now userId phoneNumber msg conversationId db]
    stream_loop_exhausts [of llm env userId cid phoneNumber now maxIterations st]
    invoke_loop_exhausts [of llm' env userId cid phoneNumber now maxIterations st]
  by (simp add: maxIterations_def)


lemma stream_loop_prefix:
  "\<exists>rest. ls_completions (stream_loop llm env userId conversationId phoneNumber now n st)
            = ls_completions st @ rest"
proof (induction n arbitrary: st)
  case 0
  then show ?case by simp
next
  case (Suc n)
  show ?case
  proof (cases "llm (ls_messages st)")
    case (Inl e)
    then show ?thesis by simp
  next
    case (Inr resp)
    show ?thesis
    proof (cases "sr_chunks resp \<noteq> [] \<and> sr_tool_calls resp \<noteq> []")
      case False
      with Inr show ?thesis by (auto simp add: Let_def)
    next
      case True
      let ?st' = "run_tool_calls True env userId conversationId phoneNumber now
                    (sr_tool_calls resp)
                    (st\<lparr>ls_completions := ls_completions st @ [ls_messages st],
                        ls_finalResponse := ls_finalResponse st @
                          concat (map ch_content (filter (\<lambda>ch. ch_content ch \<noteq> []) (sr_chunks resp))),
                        ls_events := ls_events st @
                          map (\<lambda>ch. Token (ch_content ch))
                            (filter (\<lambda>ch. \<not> ch_has_tool_call_chunks ch)
                               (filter (\<lambda>ch. ch_content ch \<noteq> []) (sr_chunks resp))),
                        ls_messages := ls_messages st @
                          [AIMessage (concat (map ch_content (sr_chunks resp))) (sr_tool_calls resp)],
                        ls_finalResponse := []\<rparr>)"
      have eq: "stream_loop llm env userId conversationId phoneNumber now (Suc n) st
          = stream_loop llm env userId conversationId phoneNumber now n ?st'"
        using Inr True by (simp add: Let_def)
      have "ls_completions ?st' = ls_completions st @ [ls_messages st]"
        by (simp add: run_tool_calls_frame)
      with Suc.IH [of ?st'] eq show ?thesis by auto
    qed
  qed
qed

lemma stream_loop_first:
  "\<exists>rest. ls_completions (stream_loop llm env userId conversationId phoneNumber now (Suc n) st)
            = ls_completions st @ ls_messages st # rest"
proof (cases "llm (ls_messages st)")
  case (Inl e)
  then show ?thesis by simp
next
  case (Inr resp)
  show ?thesis
  proof (cases "sr_chunks resp \<noteq> [] \<and> sr_tool_calls resp \<noteq> []")
    case False
    with Inr show ?thesis by (auto simp add: Let_def)
  next
    case True
    let ?st' = "run_tool_calls True env userId conversationId phoneNumber now
                    (sr_tool_calls resp)
                    (st\<lparr>ls_completions := ls_completions st @ [ls_messages st],
                        ls_finalResponse := ls_finalResponse st @
                          concat (map ch_content (filter (\<lambda>ch. ch_content ch \<noteq> []) (sr_chunks resp))),
                        ls_events := ls_events st @
                          map (\<lambda>ch. Token (ch_content ch))
                            (filter (\<lambda>ch. \<not> ch_has_tool_call_chunks ch)
                               (filter (\<lambda>ch. ch_content ch \<noteq> []) (sr_chunks resp))),
                        ls_messages := ls_messages st @
                          [AIMessage (concat (map ch_content (sr_chunks resp))) (sr_tool_calls resp)],
                        ls_finalResponse := []\<rparr>)"
    have eq: "stream_loop llm env userId conversationId phoneNumber now (Suc n) st
          = stream_loop llm env userId conversationId phoneNumber now n ?st'"
      using Inr True by (simp add: Let_def)
    have "ls_completions ?st' = ls_completions st @ [ls_messages st]"
      by (simp add: run_tool_calls_frame)
    with stream_loop_prefix [of llm env userId conversationId phoneNumber now n ?st'] eq
    show ?thesis by auto
  qed
qed

lemma invoke_loop_prefix:
  "\<exists>rest. ls_completions (invoke_loop llm env userId conversationId phoneNumber now n st)
            = ls_completions st @ rest"
proof (induction n arbitrary: st)
  case 0
  then show ?case by simp
next
  case (Suc n)
  show ?case
  proof (cases "llm (ls_messages st)")
    case (Inl e)
    then show ?thesis by simp
  next
    case (Inr response)
    show ?thesis
    proof (cases "ai_tool_calls response \<noteq> []")
      case False
      with Inr show ?thesis by (simp add: Let_def)
    next
      case True
      let ?st' = "run_tool_calls False env userId conversationId phoneNumber now
                    (ai_tool_calls response)
                    (st\<lparr>ls_completions := ls_completions st @ [ls_messages st],
                        ls_messages := ls_messages st @
                          [AIMessage (ai_content response) (ai_tool_calls response)]\<rparr>)"
      have eq: "invoke_loop llm env userId conversationId phoneNumber now (Suc n) st
          = invoke_loop llm env userId conversationId phoneNumber now n ?st'"
        using Inr True by (simp add: Let_def)
      have "ls_completions ?st' = ls_completions st @ [ls_messages st]"
        by (simp add: run_tool_calls_frame)
      with Suc.IH [of ?st'] eq show ?thesis by auto
    qed
  qed
qed

lemma invoke_loop_first:
  "\<exists>rest. ls_completions (invoke_loop llm env userId conversationId phoneNumber now (Suc n) st)
            = ls_completions st @ ls_messages st # rest"
proof (cases "llm (ls_messages st)")
  case (Inl e)
  then show ?thesis by simp
next
  case (Inr response)
  show ?thesis
  proof (cases "ai_tool_calls response \<noteq> []")
    case False
    with Inr show ?thesis by (simp add: Let_def)
  next
    case True
    let ?st' = "run_tool_calls False env userId conversationId phoneNumber now
                    (ai_tool_calls response)
                    (st\<lparr>ls_completions := ls_completions st @ [ls_messages st],
                        ls_messages := ls_messages st @
                          [AIMessage (ai_content response) (ai_tool_calls response)]\<rparr>)"
    have eq: "invoke_loop llm env userId conversationId phoneNumber now (Suc n) st
          = invoke_loop llm env userId conversationId phoneNumber now n ?st'"
      using Inr True by (simp add: Let_def)
    have "ls_completions ?st' = ls_completions st @ [ls_messages st]"
      by (simp add: run_tool_calls_frame)
    with invoke_loop_prefix [of llm env userId conversationId phoneNumber now n ?st'] eq
    show ?thesis by auto
  qed
qed

lemma maxIterations_Suc: "maxIterations = Suc 4"
  by (simp add: maxIterations_def)

lemma CR_findById_id:
  "CR_findById cid convs = Inr (Some c) \<Longrightarrow> c_id c = Some cid"
  by (auto simp add: CR_findById_def CR_findOne_def Conversation_fromDocument_def
      new_Conversation_def find_Some_iff split: option.splits if_splits)

text \<open>
  The prompt of the first round, for a conversation that exists: the history the run
  holds is the history before the user message was appended, and its last entry is left
  out.
\<close>

lemma first_round_prompt:
  assumes "CR_findById cid convs = Inr (Some c)"
  shows "\<exists>rest. rr_completions
            (processMessageStream llm env now userId phoneNumber msg (Some cid) (convs, rems))
          = ([getSystemMessage env now]
               @ map history_message (butlast (getFormattedHistory c)) @ [HumanMessage msg])
            # rest"
    and "\<exists>rest. rr_completions
            (processMessage llm' env now userId phoneNumber msg (Some cid) (convs, rems))
          = ([getSystemMessage env now]
               @ map history_message (butlast (getFormattedHistory c)) @ [HumanMessage msg])
            # rest"
proof -
  have cid: "c_id c = Some cid" by (rule CR_findById_id [OF assms])
  obtain a convs2 where app: "appendMessage cid User msg now convs = Inr (a, convs2)"
    using assms by (simp add: appendMessage_def Let_def)
  let ?ev = "[Conversation_id (ObjectId_toString env cid)]"
  let ?s0 = "\<lparr>ls_messages = prepare_messages env now c msg, ls_reminders = rems,
              ls_finalResponse = [], ls_completions = [], ls_events = ?ev,
              ls_thrown = None\<rparr>"
  let ?s1 = "\<lparr>ls_messages = prepare_messages env now c msg, ls_reminders = rems,
              ls_finalResponse = [], ls_completions = [], ls_events = [],
              ls_thrown = None\<rparr>"
  have "rr_completions
            (processMessageStream llm env now userId phoneNumber msg (Some cid) (convs, rems))
      = ls_completions (stream_loop llm env userId cid phoneNumber now maxIterations ?s0)"
    using assms cid app
    by (simp add: processMessageStream_def resolve_conversation_def Let_def
        split: option.splits sum.splits prod.splits)
  with stream_loop_first [of llm env userId cid phoneNumber now 4 ?s0]
  show "\<exists>rest. rr_completions
            (processMessageStream llm env now userId phoneNumber msg (Some cid) (convs, rems))
          = ([getSystemMessage env now]
               @ map history_message (butlast (getFormattedHistory c)) @ [HumanMessage msg])
            # rest"
    by (simp add: maxIterations_Suc prepare_messages_def Let_def)
  have "rr_completions
            (processMessage llm' env now userId phoneNumber msg (Some cid) (convs, rems))
      = ls_completions (invoke_loop llm' env userId cid phoneNumber now maxIterations ?s1)"
    using assms cid app
    by (simp add: processMessage_def resolve_conversation_def Let_def
        split: option.splits sum.splits prod.splits)
  with invoke_loop_first [of llm' env userId cid phoneNumber now 4 ?s1]
  show "\<exists>rest. rr_completions
            (processMessage llm' env now userId phoneNumber msg (Some cid) (convs, rems))
          = ([getSystemMessage env now]
               @ map history_message (butlast (getFormattedHistory c)) @ [HumanMessage msg])
            # rest"
    by (simp add: maxIterations_Suc prepare_messages_def Let_def)
qed

lemma example_conversation_found:
  "CR_findById 4 [example_conversation] = Inr (Some example_conversation)"
  by (simp add: CR_findById_def CR_findOne_def Conversation_fromDocument_def
      new_Conversation_def ConversationSchema_ok_def example_conversation_def is_digit_def)

text \<open>
  C1, at a conversation that holds a user message and the assistant's reply: the message
  list of the first round, in both loops and for every completion client, is the system
  instruction, the first user message and the new user message. The assistant's reply,
  the last message of the history as it stood before the append, is not in it.
\<close>

theorem C1_first_round_drops_last_message:
  "map history_message (getFormattedHistory example_conversation)
     = [HumanMessage ''Remind me to call mom'', AIMessage ''Done, tomorrow at 3pm'' []]
   \<and> take 1 (rr_completions
        (processMessageStream llm example_env example_now 7 ''+15551234567''
           ''Actually make it 4pm'' (Some 4) ([example_conversation], rems)))
     = [[getSystemMessage example_env example_now, HumanMessage ''Remind me to call mom'',
         HumanMessage ''Actually make it 4pm'']]
   \<and> take 1 (rr_completions
        (processMessage llm' example_env example_now 7 ''+15551234567''
           ''Actually make it 4pm'' (Some 4) ([example_conversation], rems)))
     = [[getSystemMessage example_env example_now, HumanMessage ''Remind me to call mom'',
         HumanMessage ''Actually make it 4pm'']]"
proof -
  have h: "map history_message (getFormattedHistory example_conversation)
     = [HumanMessage ''Remind me to call mom'', AIMessage ''Done, tomorrow at 3pm'' []]"
    by (simp add: getFormattedHistory_def history_message_def example_conversation_def)
  have b: "map history_message (butlast (getFormattedHistory example_conversation))
     = [HumanMessage ''Remind me to call mom'']"
    by (simp add: getFormattedHistory_def history_message_def example_conversation_def)
  show ?thesis
    using h b
      first_round_prompt(1) [OF example_conversation_found, of llm example_env example_now 7
        "''+15551234567''" "''Actually make it 4pm''" rems]
      first_round_prompt(2) [OF example_conversation_found, of llm' example_env example_now 7
        "''+15551234567''" "''Actually make it 4pm''" rems]
    by auto
qed


lemma always_tools_invoke_loop:
  "length (ls_completions
     (invoke_loop always_tools_invoke env userId conversationId phoneNumber now n st))
     = length (ls_completions st) + n"
  "ls_finalResponse
     (invoke_loop always_tools_invoke env userId conversationId phoneNumber now n st)
     = ls_finalResponse st"
  "ls_thrown (invoke_loop always_tools_invoke env userId conversationId phoneNumber now n st)
     = ls_thrown st"
  using invoke_loop_exhausts [of always_tools_invoke env userId conversationId phoneNumber now n st]
  by (simp_all add: always_tools_invoke_def)

lemma always_tools_stream_loop:
  "length (ls_completions
     (stream_loop always_tools_stream env userId conversationId phoneNumber now n st))
     = length (ls_completions st) + n"
  "ls_finalResponse
     (stream_loop always_tools_stream env userId conversationId phoneNumber now n st)
     = (if n = 0 then ls_finalResponse st else [])"
  "ls_thrown (stream_loop always_tools_stream env userId conversationId phoneNumber now n st)
     = ls_thrown st"
  using stream_loop_exhausts [of always_tools_stream env userId conversationId phoneNumber now n st]
  by (simp_all add: always_tools_stream_def)

lemma example_append_user:
  "appendMessage 4 User ''Actually make it 4pm'' example_now [example_conversation]
     = Inr (Some (addMessage User ''Actually make it 4pm'' example_now example_conversation),
            [addMessage User ''Actually make it 4pm'' example_now example_conversation])"
  by (simp add: appendMessage_def example_conversation_found Let_def)
     (simp add: example_conversation_def addMessage_def Let_def)

lemma example_append_assistant:
  "appendMessage 4 Assistant [] example_now
       [addMessage User ''Actually make it 4pm'' example_now example_conversation]
     = Inr (Some (addMessage Assistant [] example_now
                   (addMessage User ''Actually make it 4pm'' example_now example_conversation)),
            [addMessage Assistant [] example_now
               (addMessage User ''Actually make it 4pm'' example_now example_conversation)])"
  by (simp add: appendMessage_def CR_findById_def CR_findOne_def Conversation_fromDocument_def
      new_Conversation_def ConversationSchema_ok_def example_conversation_def is_digit_def
      addMessage_def Let_def)

text \<open>
  C3, at a client that proposes a tool call in every round: both loops end without an
  error and with an empty final text. After the run of \<open>processMessage\<close> the
  conversation holds an assistant message with empty content behind the user message;
  after the run of \<open>processMessageStream\<close> it ends with the user message.
\<close>

theorem C3_empty_final_text_is_persisted:
  "rr_response (processMessage always_tools_invoke example_env example_now 7 ''+15551234567''
       ''Actually make it 4pm'' (Some 4) ([example_conversation], [])) = []
   \<and> rr_thrown (processMessage always_tools_invoke example_env example_now 7 ''+15551234567''
       ''Actually make it 4pm'' (Some 4) ([example_conversation], [])) = None
   \<and> map (\<lambda>c. map (\<lambda>m. (m_role m, m_content m)) (c_messages c))
        (rr_conversations (processMessage always_tools_invoke example_env example_now 7
           ''+15551234567'' ''Actually make it 4pm'' (Some 4) ([example_conversation], [])))
     = [[(User, ''Remind me to call mom''), (Assistant, ''Done, tomorrow at 3pm''),
         (User, ''Actually make it 4pm''), (Assistant, [])]]
   \<and> rr_response (processMessageStream always_tools_stream example_env example_now 7
       ''+15551234567'' ''Actually make it 4pm'' (Some 4) ([example_conversation], [])) = []
   \<and> rr_thrown (processMessageStream always_tools_stream example_env example_now 7
       ''+15551234567'' ''Actually make it 4pm'' (Some 4) ([example_conversation], [])) = None
   \<and> map (\<lambda>c. map (\<lambda>m. (m_role m, m_content m)) (c_messages c))
        (rr_conversations (processMessageStream always_tools_stream example_env example_now 7
           ''+15551234567'' ''Actually make it 4pm'' (Some 4) ([example_conversation], [])))
     = [[(User, ''Remind me to call mom''), (Assistant, ''Done, tomorrow at 3pm''),
         (User, ''Actually make it 4pm'')]]"
proof -
  have id1: "c_id example_conversation = Some 4" by (simp add: example_conversation_def)
  have m1: "map (\<lambda>m. (m_role m, m_content m))
       (c_messages (addMessage User ''Actually make it 4pm'' example_now example_conversation))
     = [(User, ''Remind me to call mom''), (Assistant, ''Done, tomorrow at 3pm''),
         (User, ''Actually make it 4pm'')]"
    by (simp add: addMessage_messages) (simp add: example_conversation_def)
  have m2: "map (\<lambda>m. (m_role m, m_content m))
       (c_messages (addMessage Assistant [] example_now
          (addMessage User ''Actually make it 4pm'' example_now example_conversation)))
     = [(User, ''Remind me to call mom''), (Assistant, ''Done, tomorrow at 3pm''),
         (User, ''Actually make it 4pm''), (Assistant, [])]"
    by (simp add: addMessage_messages) (simp add: example_conversation_def)
  show ?thesis
    by (simp add: processMessage_def processMessageStream_def resolve_conversation_def
        example_conversation_found id1 example_append_user example_append_assistant
        always_tools_invoke_loop always_tools_stream_loop maxIterations_def Let_def m1 m2)
qed

theorem C4_iteration_budget_witness:
  "length (rr_completions (processMessageStream always_tools_stream example_env example_now 7
       ''+15551234567'' ''Actually make it 4pm'' (Some 4) ([example_conversation], []))) = 5
   \<and> length (rr_completions (processMessage always_tools_invoke example_env example_now 7
       ''+15551234567'' ''Actually make it 4pm'' (Some 4) ([example_conversation], []))) = 5"
proof -
  have id1: "c_id example_conversation = Some 4" by (simp add: example_conversation_def)
  let ?s0 = "\<lparr>ls_messages = prepare_messages example_env example_now example_conversation
                 ''Actually make it 4pm'',
              ls_reminders = [], ls_finalResponse = [], ls_completions = [],
              ls_events = [Conversation_id (ObjectId_toString example_env 4)],
              ls_thrown = None\<rparr>"
  let ?s1 = "\<lparr>ls_messages = prepare_messages example_env example_now example_conversation
                 ''Actually make it 4pm'',
              ls_reminders = [], ls_finalResponse = [], ls_completions = [],
              ls_events = [], ls_thrown = None\<rparr>"
  have a: "rr_completions (processMessageStream always_tools_stream example_env example_now 7
       ''+15551234567'' ''Actually make it 4pm'' (Some 4) ([example_conversation], []))
     = ls_completions (stream_loop always_tools_stream example_env 7 4 ''+15551234567''
          example_now maxIterations ?s0)"
    by (simp add: processMessageStream_def resolve_conversation_def
        example_conversation_found id1 example_append_user Let_def
        split: option.splits sum.splits prod.splits)
  have b: "rr_completions (processMessage always_tools_invoke example_env example_now 7
       ''+15551234567'' ''Actually make it 4pm'' (Some 4) ([example_conversation], []))
     = ls_completions (invoke_loop always_tools_invoke example_env 7 4 ''+15551234567''
          example_now maxIterations ?s1)"
    by (simp add: processMessage_def resolve_conversation_def
        example_conversation_found id1 example_append_user Let_def
        split: option.splits sum.splits prod.splits)
  show ?thesis
    using C4_iteration_budget [of always_tools_stream example_env example_now 7
        "''+15551234567''" "''Actually make it 4pm''" "Some 4" "([example_conversation], [])"
        always_tools_invoke 4 ?s0]
      C4_iteration_budget [of always_tools_stream example_env example_now 7
        "''+15551234567''" "''Actually make it 4pm''" "Some 4" "([example_conversation], [])"
        always_tools_invoke 4 ?s1]
    unfolding a b
    by (simp add: always_tools_stream_def always_tools_invoke_def)
qed

end
